theory Spec2Isabelle
  imports Complex_Main "HOL-Library.Multiset" "HOL-Library.Word"
begin

section \<open>The platform: dates\<close>

text \<open>
  The program is TypeScript; its dates are the platform's \<^verbatim>\<open>Date\<close> objects. A
  \<^verbatim>\<open>Date\<close> holds a time value, a number of milliseconds since 1 January 1970, and
  every method the program calls reads or writes it in local time. The program never
  looks at a time zone, so the model takes the time value to be local wall-clock time:
  a date is an \<open>int\<close>, and the functions below are the abstract operations of the
  ECMAScript standard (\<open>Day\<close>, \<open>WeekDay\<close>, \<open>YearFromTime\<close>, \<open>MakeDay\<close>, ...) on
  the proleptic Gregorian calendar. A day of local time has 24 hours in the model: the
  hour that daylight-saving time skips or repeats, invalid dates (the time value NaN)
  and the bound of 100 000 000 days on each side of the epoch are outside it.
\<close>

type_synonym Date = int

definition msPerDay :: int where
  "msPerDay = 86400000"

definition Day :: "int \<Rightarrow> int" where
  "Day t = t div msPerDay"

definition TimeWithinDay :: "int \<Rightarrow> int" where
  "TimeWithinDay t = t mod msPerDay"

definition WeekDay :: "int \<Rightarrow> int" where
  "WeekDay t = (Day t + 4) mod 7"

text \<open>
  The calendar is computed on years that begin on 1 March, so that the leap day is the
  last day of a year, of a cycle of 4 years, and of the cycle of 400 years (146097 days).
  \<open>year_of_era\<close> splits a day of such a cycle into the year within the cycle and the
  day within that year: centuries of 36524 days, then groups of four years of 1461
  days, then years of 365 days.
\<close>

definition year_of_era :: "int \<Rightarrow> int \<times> int" where
  "year_of_era doe =
     (let c = min (doe div 36524) 3;
          doc = doe - 36524 * c;
          q = doc div 1461;
          doq = doc - 1461 * q;
          r = min (doq div 365) 3
      in (100 * c + 4 * q + r, doq - 365 * r))"

definition month_start :: "int \<Rightarrow> int" where
  "month_start mp = (153 * mp + 2) div 5"

definition month_of_doy :: "int \<Rightarrow> int" where
  "month_of_doy doy = (5 * doy + 2) div 153"

text \<open>
  \<open>civil_from_days z\<close> is the calendar date (year, month from 0 = January, day of the
  month from 1) of the day number \<open>z\<close>, where day 0 is 1 January 1970;
  \<open>days_from_civil\<close> is the day number of a calendar date.
\<close>

definition civil_from_days :: "int \<Rightarrow> int \<times> int \<times> int" where
  "civil_from_days z =
     (let n = z + 719468;
          era = n div 146097;
          doe = n mod 146097;
          (yoe, doy) = year_of_era doe;
          mp = month_of_doy doy;
          d = doy - month_start mp + 1;
          m = (if mp < 10 then mp + 2 else mp - 10);
          yy = 400 * era + yoe
      in (if m \<le> 1 then yy + 1 else yy, m, d))"

definition days_from_civil :: "int \<Rightarrow> int \<Rightarrow> int \<Rightarrow> int" where
  "days_from_civil y m d =
     (let yy = (if m \<le> 1 then y - 1 else y);
          era = yy div 400;
          yoe = yy mod 400;
          mp = (if m \<le> 1 then m + 10 else m - 2);
          doy = month_start mp + d - 1;
          doe = 365 * yoe + yoe div 4 - yoe div 100 + doy
      in era * 146097 + doe - 719468)"

definition YearFromTime :: "int \<Rightarrow> int" where
  "YearFromTime t = fst (civil_from_days (Day t))"

definition MonthFromTime :: "int \<Rightarrow> int" where
  "MonthFromTime t = fst (snd (civil_from_days (Day t)))"

definition DateFromTime :: "int \<Rightarrow> int" where
  "DateFromTime t = snd (snd (civil_from_days (Day t)))"

text \<open>
  \<open>MakeDay year month date\<close>: months beyond 0..11 carry into the year, and the day of
  the month counts on from the first of the month, so that day 0 is the last day of
  the month before and day 32 runs into the month after.
\<close>

definition MakeDay :: "int \<Rightarrow> int \<Rightarrow> int \<Rightarrow> int" where
  "MakeDay year month date =
     (let ym = year + month div 12;
          mn = month mod 12
      in days_from_civil ym mn 1 + date - 1)"

definition MakeDate :: "int \<Rightarrow> int \<Rightarrow> int" where
  "MakeDate day time = day * msPerDay + time"

definition isLeapYear :: "int \<Rightarrow> bool" where
  "isLeapYear y = (y mod 4 = 0 \<and> (y mod 100 \<noteq> 0 \<or> y mod 400 = 0))"

definition DaysInMonth :: "int \<Rightarrow> int \<Rightarrow> int" where
  "DaysInMonth y m =
     (if m = 1 then (if isLeapYear y then 29 else 28)
      else if m = 3 \<or> m = 5 \<or> m = 8 \<or> m = 10 then 30
      else 31)"

text \<open>
  Two notions that the proofs about the calendar use: the years of a cycle that end
  with a leap day, and the day number (counted from 1 March of year 0) on which a
  year beginning in March starts.
\<close>

definition leap_end :: "int \<Rightarrow> bool" where
  "leap_end yoe = (yoe mod 4 = 3 \<and> (yoe mod 100 \<noteq> 99 \<or> yoe = 399))"

definition year_start :: "int \<Rightarrow> int" where
  "year_start yy = (yy div 400) * 146097 + 365 * (yy mod 400) + (yy mod 400) div 4 - (yy mod 400) div 100"

subsection \<open>The methods of Date that the program calls\<close>

text \<open>
  \<^verbatim>\<open>new Date(year, month, date)\<close> reads a year from 0 to 99 as 1900 + year (the
  standard's rule for the constructor with several arguments); hours, minutes, seconds
  and milliseconds are 0 when they are not given. \<^verbatim>\<open>new Date(d)\<close> of a date \<open>d\<close> is a
  copy, the same value in the model.
\<close>

definition fullYear :: "int \<Rightarrow> int" where
  "fullYear y = (if 0 \<le> y \<and> y \<le> 99 then 1900 + y else y)"

definition new_Date :: "int \<Rightarrow> int \<Rightarrow> int \<Rightarrow> Date" where
  "new_Date year month date = MakeDate (MakeDay (fullYear year) month date) 0"

definition getTime :: "Date \<Rightarrow> int" where
  "getTime t = t"

definition getFullYear :: "Date \<Rightarrow> int" where
  "getFullYear t = YearFromTime t"

definition getMonth :: "Date \<Rightarrow> int" where
  "getMonth t = MonthFromTime t"

definition getDate :: "Date \<Rightarrow> int" where
  "getDate t = DateFromTime t"

definition getDay :: "Date \<Rightarrow> int" where
  "getDay t = WeekDay t"

definition setDate :: "Date \<Rightarrow> int \<Rightarrow> Date" where
  "setDate t dt = MakeDate (MakeDay (YearFromTime t) (MonthFromTime t) dt) (TimeWithinDay t)"

text \<open>\<^verbatim>\<open>d.setHours(0, 0, 0, 0)\<close>: the same day at time 0.\<close>

definition setHours0 :: "Date \<Rightarrow> Date" where
  "setHours0 t = MakeDate (Day t) 0"

section \<open>dateUtils: the calendar grid\<close>

text \<open>
  \<^verbatim>\<open>isSameDay(date1, date2)\<close> compares year, month and day of the month.
\<close>

definition isSameDay :: "Date \<Rightarrow> Date \<Rightarrow> bool" where
  "isSameDay date1 date2 =
     (getFullYear date1 = getFullYear date2 \<and>
      getMonth date1 = getMonth date2 \<and>
      getDate date1 = getDate date2)"

text \<open>
  \<^verbatim>\<open>getCalendarGrid(year, month)\<close>. The loop runs \<open>i\<close> from 0 to 41: each turn
  copies \<open>startDate\<close>, sets the copy's day of the month to \<open>startDate.getDate() + i\<close>,
  pushes it on the current week, and moves the week to \<open>weeks\<close> when it holds 7 dates.
\<close>

function grid_loop :: "nat \<Rightarrow> Date \<Rightarrow> Date list list \<Rightarrow> Date list \<Rightarrow> Date list list" where
  "grid_loop i startDate weeks currentWeek =
     (if i < 42 then
        (let currentDate = setDate startDate (getDate startDate + int i);
             currentWeek' = currentWeek @ [currentDate]
         in if length currentWeek' = 7
            then grid_loop (i + 1) startDate (weeks @ [currentWeek']) []
            else grid_loop (i + 1) startDate weeks currentWeek')
      else weeks)"
  by pat_completeness auto
termination
  by (relation "measure (\<lambda>(i, startDate, weeks, currentWeek). 42 - i)") auto

declare grid_loop.simps [simp del]

definition getCalendarGrid :: "int \<Rightarrow> int \<Rightarrow> Date list list" where
  "getCalendarGrid year month =
     (let firstDay = new_Date year month 1;
          startDate = setDate firstDay (getDate firstDay - getDay firstDay)
      in grid_loop 0 startDate [] [])"

text \<open>
  \<^verbatim>\<open>getDaysInMonth(year, month)\<close> of the same module finds the last day of a month as
  \<^verbatim>\<open>new Date(year, month + 1, 0)\<close>.
\<close>

definition lastDayOfMonth :: "int \<Rightarrow> int \<Rightarrow> Date" where
  "lastDayOfMonth year month = new_Date year (month + 1) 0"

text \<open>
  The grid as the specification words it (\<open>DateGrid.grid(year, month)\<close>): locate the
  first day of the month, in the year \<open>year\<close> itself; step back to the most recent
  Sunday, no step when the first is a Sunday; then 42 consecutive days, in 6 rows of 7.
\<close>

definition firstDayOfMonth :: "int \<Rightarrow> int \<Rightarrow> Date" where
  "firstDayOfMonth year month = MakeDate (MakeDay year month 1) 0"

definition DateGrid_grid :: "int \<Rightarrow> int \<Rightarrow> Date list list" where
  "DateGrid_grid year month =
     (let first = firstDayOfMonth year month;
          anchor = first - WeekDay first * msPerDay
      in map (\<lambda>row. map (\<lambda>column. anchor + int (7 * row + column) * msPerDay) [0..<7]) [0..<6])"


section \<open>The platform: strings\<close>

text \<open>
  A string of the program is a sequence of UTF-16 code units, 16 bits each; \<open>str\<close>
  writes one whose code units are all below 256 from the characters of a literal of
  the logic. \<open>decimal\<close> is the decimal numeral of an integer that is not negative,
  \<open>integer_string\<close> that of any integer: what the platform makes of an array index
  used as a property name, and of \<^verbatim>\<open>Date.now()\<close> appended to a string (a number
  is written in full, with all its digits, up to 21 of them).
\<close>

type_synonym code_unit = "16 word"

type_synonym jsstring = "code_unit list"

definition str :: "string \<Rightarrow> jsstring" where
  "str s = map of_char s"

definition digit_char :: "int \<Rightarrow> code_unit" where
  "digit_char n = of_int (48 + n)"

function decimal :: "int \<Rightarrow> jsstring" where
  "decimal n = (if n < 10 then [digit_char n] else decimal (n div 10) @ [digit_char (n mod 10)])"
  by pat_completeness auto
termination
  by (relation "measure nat") auto

declare decimal.simps [simp del]

definition integer_string :: "int \<Rightarrow> jsstring" where
  "integer_string n = (if n < 0 then 0x2D # decimal (- n) else decimal n)"

definition string_of_nat :: "nat \<Rightarrow> jsstring" where
  "string_of_nat n = decimal (int n)"

section \<open>The platform: sorting an array\<close>

text \<open>
  \<^verbatim>\<open>array.sort(compare)\<close> sorts by a comparison function that returns a number:
  negative when its first argument goes first. The standard leaves the algorithm to
  the engine and requires the sort to be stable; the model is the stable insertion
  sort. The comparison functions of this program are differences of integer keys.
\<close>

fun insert_sorted :: "('a \<Rightarrow> 'a \<Rightarrow> int) \<Rightarrow> 'a \<Rightarrow> 'a list \<Rightarrow> 'a list" where
  "insert_sorted compare x [] = [x]"
| "insert_sorted compare x (y # ys) =
     (if compare x y \<le> 0 then x # y # ys else y # insert_sorted compare x ys)"

definition array_sort :: "('a \<Rightarrow> 'a \<Rightarrow> int) \<Rightarrow> 'a list \<Rightarrow> 'a list" where
  "array_sort compare xs = foldr (insert_sorted compare) xs []"

section \<open>Events: the events of a date and the dashboard statistics\<close>

record Event =
  event_id :: jsstring
  title :: jsstring
  description :: jsstring
  startDate :: Date
  endDate :: Date
  location :: "jsstring option"
  category :: jsstring
  priority :: jsstring
  attendees :: "jsstring list option"
  createdAt :: Date
  updatedAt :: Date

text \<open>
  The callback that \<^verbatim>\<open>filter\<close> gets in \<^verbatim>\<open>Dashboard.getEventsForDate\<close>, in
  \<^verbatim>\<open>Calendar.getEventsForDate\<close> and in the local-storage
  \<^verbatim>\<open>EventStorage.getEventsForDate\<close> (the same three constructions and the same
  comparison in all three; the last one builds \<open>targetDate\<close> once, before the filter).
\<close>

definition onTargetDate :: "Date \<Rightarrow> Event \<Rightarrow> bool" where
  "onTargetDate date event =
     (let eventStart = startDate event;
          eventEnd = endDate event;
          targetDate = new_Date (getFullYear date) (getMonth date) (getDate date);
          startDate' = new_Date (getFullYear eventStart) (getMonth eventStart) (getDate eventStart);
          endDate' = new_Date (getFullYear eventEnd) (getMonth eventEnd) (getDate eventEnd)
      in targetDate \<ge> startDate' \<and> targetDate \<le> endDate')"

definition byStartDate :: "Event \<Rightarrow> Event \<Rightarrow> int" where
  "byStartDate a b = getTime (startDate a) - getTime (startDate b)"

definition Dashboard_getEventsForDate :: "Event list \<Rightarrow> Date \<Rightarrow> Event list" where
  "Dashboard_getEventsForDate events date =
     array_sort byStartDate (filter (onTargetDate date) events)"

text \<open>
  \<^verbatim>\<open>EventStorage.loadAllEvents\<close> returns the stored events sorted by start date (both
  versions of the service end with the same \<^verbatim>\<open>sort\<close>); \<open>stored\<close> is the list of
  events as they come from the store.
\<close>

definition loadAllEvents :: "Event list \<Rightarrow> Event list" where
  "loadAllEvents stored = array_sort byStartDate stored"

definition EventStorage_getEventsForDate :: "Event list \<Rightarrow> Date \<Rightarrow> Event list" where
  "EventStorage_getEventsForDate stored date =
     (let allEvents = loadAllEvents stored
      in filter (onTargetDate date) allEvents)"

text \<open>
  The calendar holds \<open>events\<close>, empty at first and assigned only in \<^verbatim>\<open>loadEvents\<close>:
  the result of \<^verbatim>\<open>EventStorage.loadAllEvents()\<close>, or the empty list when that throws
  (\<open>None\<close>).
\<close>

definition Calendar_loadEvents :: "Event list option \<Rightarrow> Event list" where
  "Calendar_loadEvents stored = (case stored of None \<Rightarrow> [] | Some rows \<Rightarrow> loadAllEvents rows)"

definition Calendar_getEventsForDate :: "Event list \<Rightarrow> Date \<Rightarrow> Event list" where
  "Calendar_getEventsForDate events date = filter (onTargetDate date) events"

text \<open>
  \<^verbatim>\<open>Dashboard.updateStats\<close> computes four numbers and renders them. The clock is read
  several times in the source (\<^verbatim>\<open>new Date()\<close>); the model reads it once, as \<open>now\<close>.
\<close>

record Stats =
  totalEvents :: nat
  todayEvents :: nat
  upcomingEvents :: nat
  urgentEvents :: nat

definition updateStats :: "Event list \<Rightarrow> Date \<Rightarrow> Stats" where
  "updateStats events now =
     \<lparr> totalEvents = length events,
       todayEvents = length (Dashboard_getEventsForDate events now),
       upcomingEvents = length (filter (\<lambda>event.
          (let eventDate = startDate event;
               today = setHours0 now
           in eventDate > today)) events),
       urgentEvents = length (filter (\<lambda>event.
          priority event = str ''urgent'' \<and> startDate event \<ge> now) events) \<rparr>"

text \<open>
  What the specification calls the start of a day, and the days an event spans: the
  day of a date is its day number, whatever its time of day.
\<close>

definition startOfDay :: "Date \<Rightarrow> Date" where
  "startOfDay t = MakeDate (Day t) 0"

definition spansDay :: "Event \<Rightarrow> Date \<Rightarrow> bool" where
  "spansDay event date =
     (startOfDay (startDate event) \<le> startOfDay date \<and> startOfDay date \<le> startOfDay (endDate event))"

definition fullYearDate :: "Date \<Rightarrow> bool" where
  "fullYearDate t = (getFullYear t < 0 \<or> 99 < getFullYear t)"

section \<open>The platform: numbers\<close>

text \<open>
  A number of the program is a double: NaN, an infinity or a finite value. The model
  writes a finite value as the rational number it is, and has one zero where the
  platform has two. \<open>number_less\<close> is \<^verbatim>\<open><\<close>, false when an operand is NaN;
  \<open>number_minus\<close> is \<^verbatim>\<open>-\<close>, whose result between two finite values is exact here
  where the platform rounds it: rounding never changes the sign of a difference, and
  the sign is all that the program reads of one.
\<close>

datatype number = NaN | Infinity | MinusInfinity | Finite rat

fun number_less :: "number \<Rightarrow> number \<Rightarrow> bool" where
  "number_less (Finite a) (Finite b) = (a < b)"
| "number_less (Finite a) Infinity = True"
| "number_less MinusInfinity (Finite b) = True"
| "number_less MinusInfinity Infinity = True"
| "number_less x y = False"

fun number_minus :: "number \<Rightarrow> number \<Rightarrow> number" where
  "number_minus (Finite a) (Finite b) = Finite (a - b)"
| "number_minus (Finite a) Infinity = MinusInfinity"
| "number_minus (Finite a) MinusInfinity = Infinity"
| "number_minus Infinity (Finite b) = Infinity"
| "number_minus Infinity MinusInfinity = Infinity"
| "number_minus MinusInfinity (Finite b) = MinusInfinity"
| "number_minus MinusInfinity Infinity = MinusInfinity"
| "number_minus x y = NaN"

text \<open>
  \<^verbatim>\<open>Math.min(x, y)\<close> and \<^verbatim>\<open>Math.max(x, y)\<close>: NaN when an argument is NaN.
\<close>

definition Math_min :: "number \<Rightarrow> number \<Rightarrow> number" where
  "Math_min x y = (if x = NaN \<or> y = NaN then NaN else if number_less y x then y else x)"

definition Math_max :: "number \<Rightarrow> number \<Rightarrow> number" where
  "Math_max x y = (if x = NaN \<or> y = NaN then NaN else if number_less x y then y else x)"

text \<open>
  The number that stands for an integer: the integer itself below 2 to the power 53, and
  otherwise the nearest number with 53 significant bits, the even one of two that
  are equally near, or an infinity from 2 to the power 1024 on. \<open>double_exponent n\<close>
  is the number of low bits that do not fit.
\<close>

function double_exponent :: "int \<Rightarrow> nat" where
  "double_exponent n = (if n < 9007199254740992 then 0 else Suc (double_exponent (n div 2)))"
  by pat_completeness auto
termination
  by (relation "measure nat") auto

declare double_exponent.simps [simp del]

definition Number_value :: "int \<Rightarrow> number" where
  "Number_value x =
     (let n = \<bar>x\<bar>;
          q = 2 ^ double_exponent n;
          m = n div q;
          r = n mod q;
          m' = (if q < 2 * r \<or> (2 * r = q \<and> odd m) then m + 1 else m)
      in if 2 ^ 1024 \<le> m' * q then (if x < 0 then MinusInfinity else Infinity)
         else Finite (of_int (sgn x * (m' * q))))"

text \<open>
  What \<^verbatim>\<open>sort\<close> makes of the number that a comparison function returns: its sign,
  and 0 when it is NaN. What \<^verbatim>\<open>||\<close> makes of a number: 0 and NaN are falsy.
\<close>

fun sort_order :: "number \<Rightarrow> int" where
  "sort_order NaN = 0"
| "sort_order Infinity = 1"
| "sort_order MinusInfinity = - 1"
| "sort_order (Finite r) = (if r < 0 then - 1 else if r = 0 then 0 else 1)"

definition falsy_number :: "number \<Rightarrow> bool" where
  "falsy_number x = (x = NaN \<or> x = Finite 0)"

text \<open>\<^verbatim>\<open>x >= y\<close>, false when an operand is NaN.\<close>

definition number_geq :: "number \<Rightarrow> number \<Rightarrow> bool" where
  "number_geq x y = (x \<noteq> NaN \<and> y \<noteq> NaN \<and> \<not> number_less x y)"

section \<open>The platform: values, objects and JSON\<close>

text \<open>
  TypeScript's types are erased when the program runs: what \<^verbatim>\<open>JSON.parse\<close> returns
  and what the spread \<^verbatim>\<open>{ ...a, ...b }\<close> merges are plain values. An object is the list
  of its properties in the order in which the platform enumerates them, each name
  once: the names that are array indices first, in ascending order, then the other
  names in the order of their creation.
\<close>

datatype jsval =
    Undefined
  | Null
  | Bool bool
  | Num number
  | Str jsstring
  | Arr "jsval list"
  | Obj "(jsstring \<times> jsval) list"

type_synonym object = "(jsstring \<times> jsval) list"

fun has_prop :: "jsstring \<Rightarrow> object \<Rightarrow> bool" where
  "has_prop k [] = False"
| "has_prop k ((k', v') # ps) = (k = k' \<or> has_prop k ps)"

definition get_prop :: "object \<Rightarrow> jsstring \<Rightarrow> jsval" where
  "get_prop ob k = (case map_of ob k of None \<Rightarrow> Undefined | Some v \<Rightarrow> v)"

text \<open>
  An array index is the decimal numeral, with no leading zero, of a number below
  4294967295.
\<close>

definition is_decimal_digit :: "code_unit \<Rightarrow> bool" where
  "is_decimal_digit c = (0x30 \<le> c \<and> c \<le> 0x39)"

definition decimal_value :: "jsstring \<Rightarrow> int" where
  "decimal_value ds = foldl (\<lambda>acc c. acc * 10 + (uint c - 48)) 0 ds"

definition array_index :: "jsstring \<Rightarrow> int option" where
  "array_index k =
     (if k \<noteq> [] \<and> list_all is_decimal_digit k \<and> (length k = 1 \<or> hd k \<noteq> 0x30)
         \<and> decimal_value k < 4294967295
      then Some (decimal_value k) else None)"

text \<open>
  Writing a property: in place when the object has it; a new array index goes before
  the first name that is a greater index or no index, any other new name to the end.
\<close>

fun replace_prop :: "jsstring \<Rightarrow> jsval \<Rightarrow> object \<Rightarrow> object" where
  "replace_prop k v [] = []"
| "replace_prop k v ((k', v') # ps) =
     (if k = k' then (k, v) # ps else (k', v') # replace_prop k v ps)"

fun insert_index :: "int \<Rightarrow> jsstring \<times> jsval \<Rightarrow> object \<Rightarrow> object" where
  "insert_index n p [] = [p]"
| "insert_index n p (q # ps) =
     (case array_index (fst q) of
        Some m \<Rightarrow> if m < n then q # insert_index n p ps else p # q # ps
      | None \<Rightarrow> p # q # ps)"

definition set_prop :: "jsstring \<Rightarrow> jsval \<Rightarrow> object \<Rightarrow> object" where
  "set_prop k v ps =
     (if has_prop k ps then replace_prop k v ps
      else case array_index k of
             Some n \<Rightarrow> insert_index n (k, v) ps
           | None \<Rightarrow> ps @ [(k, v)])"

text \<open>
  \<^verbatim>\<open>{ ...a, ...b }\<close>: a copy of \<open>a\<close>, then every property of \<open>b\<close> written to it in
  order. A property that \<open>b\<close> has wins whatever its value, also \<open>null\<close> or
  \<open>undefined\<close>.
\<close>

definition spread :: "object \<Rightarrow> object \<Rightarrow> object" where
  "spread a b = fold (\<lambda>(k, v). set_prop k v) b a"

text \<open>
  The properties that a spread copies from any value: those of an object, the indices
  of an array or of a string (one for each code unit), none of \<open>null\<close>,
  \<open>undefined\<close>, a number or a boolean.
\<close>

definition own_props :: "jsval \<Rightarrow> object" where
  "own_props v =
     (case v of
        Obj ps \<Rightarrow> ps
      | Arr xs \<Rightarrow> map (\<lambda>i. (string_of_nat i, xs ! i)) [0..<length xs]
      | Str s \<Rightarrow> map (\<lambda>i. (string_of_nat i, Str [s ! i])) [0..<length s]
      | _ \<Rightarrow> [])"

text \<open>
  JSON. The concrete syntax is the platform's and no function of the program looks at
  it: a text is modelled by what \<^verbatim>\<open>JSON.parse\<close> makes of it, the value it denotes or
  a syntax error (\<open>Malformed\<close>). \<open>to_json\<close> is the value that survives
  \<^verbatim>\<open>JSON.stringify\<close>: a property whose value is \<open>undefined\<close> is left out, and
  \<open>undefined\<close> in an array, NaN and the infinities become \<open>null\<close>.
\<close>

fun to_json :: "jsval \<Rightarrow> jsval"
  and to_json_elements :: "jsval list \<Rightarrow> jsval list"
  and to_json_properties :: "(jsstring \<times> jsval) list \<Rightarrow> (jsstring \<times> jsval) list" where
  "to_json Undefined = Null"
| "to_json Null = Null"
| "to_json (Bool b) = Bool b"
| "to_json (Num n) = (case n of Finite r \<Rightarrow> Num n | _ \<Rightarrow> Null)"
| "to_json (Str s) = Str s"
| "to_json (Arr xs) = Arr (to_json_elements xs)"
| "to_json (Obj ps) = Obj (to_json_properties ps)"
| "to_json_elements [] = []"
| "to_json_elements (x # xs) = to_json x # to_json_elements xs"
| "to_json_properties [] = []"
| "to_json_properties ((k, v) # ps) =
     (if v = Undefined then to_json_properties ps else (k, to_json v) # to_json_properties ps)"

datatype json_text = Text jsval | Malformed

definition JSON_stringify :: "jsval \<Rightarrow> json_text" where
  "JSON_stringify v = Text (to_json v)"

definition JSON_parse :: "json_text \<Rightarrow> jsval option" where
  "JSON_parse text = (case text of Malformed \<Rightarrow> None | Text v \<Rightarrow> Some (to_json v))"

text \<open>
  \<^verbatim>\<open>parseInt(string)\<close> with no radix: white space and line terminators are skipped,
  then an optional sign, then \<open>0x\<close> or \<open>0X\<close> selects base 16, then the longest run
  of digits is read; no digit at all gives NaN, and the integer read is returned as
  the number that stands for it.
\<close>

definition isWhiteSpace :: "code_unit \<Rightarrow> bool" where
  "isWhiteSpace c =
     (c \<in> {0x0009, 0x000A, 0x000B, 0x000C, 0x000D, 0x0020, 0x00A0, 0x1680,
            0x2028, 0x2029, 0x202F, 0x205F, 0x3000, 0xFEFF}
      \<or> (0x2000 \<le> c \<and> c \<le> 0x200A))"

definition digit_value :: "code_unit \<Rightarrow> nat option" where
  "digit_value c =
     (let n = unat c
      in if 48 \<le> n \<and> n \<le> 57 then Some (n - 48)
         else if 97 \<le> n \<and> n \<le> 122 then Some (n - 87)
         else if 65 \<le> n \<and> n \<le> 90 then Some (n - 55)
         else None)"

definition isDigit :: "nat \<Rightarrow> code_unit \<Rightarrow> bool" where
  "isDigit radix c = (case digit_value c of None \<Rightarrow> False | Some d \<Rightarrow> d < radix)"

definition number_of_digits :: "nat \<Rightarrow> jsstring \<Rightarrow> int" where
  "number_of_digits radix ds = foldl (\<lambda>acc c. acc * int radix + int (the (digit_value c))) 0 ds"

definition parseInt :: "jsstring \<Rightarrow> number" where
  "parseInt string =
     (let s = dropWhile isWhiteSpace string;
          (sign, s) = (case s of
              c # rest \<Rightarrow> if c = 0x2D then (- 1, rest) else if c = 0x2B then (1, rest) else (1, s)
            | [] \<Rightarrow> (1, s));
          (radix, s) = (case s of
              c # x # rest \<Rightarrow> if c = 0x30 \<and> (x = 0x78 \<or> x = 0x58) then (16, rest) else (10, s)
            | _ \<Rightarrow> (10, s));
          z = takeWhile (isDigit radix) s
      in if z = [] then NaN else Number_value (sign * number_of_digits radix z))"

section \<open>VenueConfig: the configuration model\<close>

record LocationOption =
  loc_id :: jsstring
  loc_name :: jsstring
  loc_description :: "jsstring option"
  capacity :: "number option"
  amenities :: "jsstring list option"
  loc_isActive :: bool

record CategoryOption =
  cat_id :: jsstring
  cat_name :: jsstring
  cat_color :: jsstring
  cat_icon :: "jsstring option"
  cat_isActive :: bool

record PriorityOption =
  pri_id :: jsstring
  pri_name :: jsstring
  pri_color :: jsstring
  level :: number
  pri_isActive :: bool

record Features =
  showAttendees :: bool
  showLocation :: bool
  showDescription :: bool
  allowRecurring :: bool
  allowFileAttachments :: bool

record VenueConfig =
  companyName :: jsstring
  logo :: jsstring
  tagline :: "jsstring option"
  primaryColor :: jsstring
  secondaryColor :: jsstring
  venueName :: jsstring
  venueAddress :: "jsstring option"
  venuePhone :: "jsstring option"
  venueEmail :: "jsstring option"
  venueWebsite :: "jsstring option"
  locations :: "LocationOption list"
  customCategories :: "CategoryOption list option"
  customPriorities :: "PriorityOption list option"
  defaultEventDuration :: number
  defaultCategory :: jsstring
  defaultPriority :: jsstring
  timeFormat :: jsstring
  dateFormat :: jsstring
  firstDayOfWeek :: number
  features :: Features

text \<open>
  The interfaces of the model file, as the functions that take a configuration of this
  type read them. A field that an interface marks optional (\<open>tagline?\<close>, \<open>icon?\<close>,
  ...) is an option, \<open>None\<close> when reading it gives \<open>undefined\<close>. A field of type
  \<open>number\<close> holds any number, NaN too.

  \<open>encode_config\<close> writes a record as an object, one property for each field and none
  for an optional field that is \<open>None\<close>; it is how \<open>DEFAULT_CONFIG\<close> below, an
  object literal in the source, gets to the functions that merge objects. The
  configuration that the service holds is an object, and what is proved of the service
  is proved of every object.
\<close>

definition optional :: "jsstring \<Rightarrow> ('a \<Rightarrow> jsval) \<Rightarrow> 'a option \<Rightarrow> object" where
  "optional k f x = (case x of None \<Rightarrow> [] | Some v \<Rightarrow> [(k, f v)])"

definition encode_location :: "LocationOption \<Rightarrow> jsval" where
  "encode_location l = Obj (
     [(str ''id'', Str (loc_id l)), (str ''name'', Str (loc_name l))] @
     optional (str ''description'') Str (loc_description l) @
     optional (str ''capacity'') Num (capacity l) @
     optional (str ''amenities'') (\<lambda>xs. Arr (map Str xs)) (amenities l) @
     [(str ''isActive'', Bool (loc_isActive l))])"

definition encode_category :: "CategoryOption \<Rightarrow> jsval" where
  "encode_category c = Obj (
     [(str ''id'', Str (cat_id c)), (str ''name'', Str (cat_name c)), (str ''color'', Str (cat_color c))] @
     optional (str ''icon'') Str (cat_icon c) @
     [(str ''isActive'', Bool (cat_isActive c))])"

definition encode_priority :: "PriorityOption \<Rightarrow> jsval" where
  "encode_priority p = Obj
     [(str ''id'', Str (pri_id p)), (str ''name'', Str (pri_name p)), (str ''color'', Str (pri_color p)),
      (str ''level'', Num (level p)), (str ''isActive'', Bool (pri_isActive p))]"

definition encode_features :: "Features \<Rightarrow> jsval" where
  "encode_features f = Obj
     [(str ''showAttendees'', Bool (showAttendees f)),
      (str ''showLocation'', Bool (showLocation f)),
      (str ''showDescription'', Bool (showDescription f)),
      (str ''allowRecurring'', Bool (allowRecurring f)),
      (str ''allowFileAttachments'', Bool (allowFileAttachments f))]"

definition encode_config :: "VenueConfig \<Rightarrow> object" where
  "encode_config c =
     [(str ''companyName'', Str (companyName c)), (str ''logo'', Str (logo c))] @
     optional (str ''tagline'') Str (tagline c) @
     [(str ''primaryColor'', Str (primaryColor c)),
      (str ''secondaryColor'', Str (secondaryColor c)),
      (str ''venueName'', Str (venueName c))] @
     optional (str ''venueAddress'') Str (venueAddress c) @
     optional (str ''venuePhone'') Str (venuePhone c) @
     optional (str ''venueEmail'') Str (venueEmail c) @
     optional (str ''venueWebsite'') Str (venueWebsite c) @
     [(str ''locations'', Arr (map encode_location (locations c)))] @
     optional (str ''customCategories'') (\<lambda>xs. Arr (map encode_category xs)) (customCategories c) @
     optional (str ''customPriorities'') (\<lambda>xs. Arr (map encode_priority xs)) (customPriorities c) @
     [(str ''defaultEventDuration'', Num (defaultEventDuration c)),
      (str ''defaultCategory'', Str (defaultCategory c)),
      (str ''defaultPriority'', Str (defaultPriority c)),
      (str ''timeFormat'', Str (timeFormat c)),
      (str ''dateFormat'', Str (dateFormat c)),
      (str ''firstDayOfWeek'', Num (firstDayOfWeek c)),
      (str ''features'', encode_features (features c))]"

text \<open>
  \<open>DEFAULT_CONFIG\<close> of the model file. The logo and the icons are emoji, two code
  units each.
\<close>

definition DEFAULT_CONFIG :: VenueConfig where
  "DEFAULT_CONFIG =
     \<lparr> companyName = str ''Event Planner'',
       logo = [0xD83D, 0xDCC5],
       tagline = Some (str ''Organize your events with ease''),
       primaryColor = str ''#667eea'',
       secondaryColor = str ''#764ba2'',
       venueName = str ''Main Venue'',
       venueAddress = Some [],
       venuePhone = Some [],
       venueEmail = Some [],
       venueWebsite = Some [],
       locations =
         [\<lparr> loc_id = str ''main-hall'', loc_name = str ''Main Hall'',
             loc_description = Some (str ''Large conference hall with A/V equipment''),
             capacity = Some (Finite 200),
             amenities = Some [str ''Projector'', str ''Sound System'', str ''WiFi'', str ''Air Conditioning''],
             loc_isActive = True \<rparr>,
          \<lparr> loc_id = str ''meeting-room-a'', loc_name = str ''Meeting Room A'',
             loc_description = Some (str ''Small meeting room for team discussions''),
             capacity = Some (Finite 12),
             amenities = Some [str ''Whiteboard'', str ''WiFi'', str ''Conference Phone''],
             loc_isActive = True \<rparr>,
          \<lparr> loc_id = str ''meeting-room-b'', loc_name = str ''Meeting Room B'',
             loc_description = Some (str ''Medium meeting room with presentation setup''),
             capacity = Some (Finite 20),
             amenities = Some [str ''TV Display'', str ''WiFi'', str ''Video Conferencing''],
             loc_isActive = True \<rparr>,
          \<lparr> loc_id = str ''outdoor-space'', loc_name = str ''Outdoor Patio'',
             loc_description = Some (str ''Covered outdoor area for social events''),
             capacity = Some (Finite 50),
             amenities = Some [str ''Tables'', str ''Chairs'', str ''Lighting''],
             loc_isActive = True \<rparr>,
          \<lparr> loc_id = str ''virtual'', loc_name = str ''Virtual/Online'',
             loc_description = Some (str ''Online meeting or webinar''),
             capacity = None,
             amenities = None,
             loc_isActive = True \<rparr>],
       customCategories = Some
         [\<lparr> cat_id = str ''training'', cat_name = str ''Training'', cat_color = str ''#10b981'',
             cat_icon = Some [0xD83C, 0xDF93], cat_isActive = True \<rparr>,
          \<lparr> cat_id = str ''workshop'', cat_name = str ''Workshop'', cat_color = str ''#f59e0b'',
             cat_icon = Some [0xD83D, 0xDD28], cat_isActive = True \<rparr>,
          \<lparr> cat_id = str ''conference'', cat_name = str ''Conference'', cat_color = str ''#3b82f6'',
             cat_icon = Some [0xD83C, 0xDFA4], cat_isActive = True \<rparr>],
       customPriorities = Some
         [\<lparr> pri_id = str ''critical'', pri_name = str ''Critical'', pri_color = str ''#dc2626'',
             level = Finite 10, pri_isActive = True \<rparr>,
          \<lparr> pri_id = str ''important'', pri_name = str ''Important'', pri_color = str ''#f59e0b'',
             level = Finite 7, pri_isActive = True \<rparr>,
          \<lparr> pri_id = str ''normal'', pri_name = str ''Normal'', pri_color = str ''#6b7280'',
             level = Finite 5, pri_isActive = True \<rparr>,
          \<lparr> pri_id = str ''low'', pri_name = str ''Low'', pri_color = str ''#10b981'',
             level = Finite 2, pri_isActive = True \<rparr>],
       defaultEventDuration = Finite 1,
       defaultCategory = str ''meeting'',
       defaultPriority = str ''normal'',
       timeFormat = str ''12h'',
       dateFormat = str ''MM/DD/YYYY'',
       firstDayOfWeek = Finite 0,
       features =
         \<lparr> showAttendees = True,
           showLocation = True,
           showDescription = True,
           allowRecurring = False,
           allowFileAttachments = False \<rparr> \<rparr>"

section \<open>ConfigService\<close>

text \<open>
  The functions that read a configuration take it as the record that
  \<^verbatim>\<open>getConfig()\<close> hands them (\<open>cfg\<close> in the source). \<^verbatim>\<open>getAllCategories\<close> and
  \<^verbatim>\<open>getAllPriorities\<close> return arrays that mix two shapes of object: the built-in
  entries, with an id, a name and a color and nothing else, and the venue's own
  entries, whole.
\<close>

record OptionView =
  opt_id :: jsstring
  opt_name :: jsstring
  opt_color :: jsstring

datatype 'a Entry = BuiltIn OptionView | Own 'a

definition getActiveLocations :: "VenueConfig \<Rightarrow> LocationOption list" where
  "getActiveLocations cfg = filter (\<lambda>l. loc_isActive l) (locations cfg)"

definition defaultCategories :: "OptionView list" where
  "defaultCategories =
     [\<lparr> opt_id = str ''meeting'', opt_name = str ''Meeting'', opt_color = str ''#3b82f6'' \<rparr>,
      \<lparr> opt_id = str ''personal'', opt_name = str ''Personal'', opt_color = str ''#10b981'' \<rparr>,
      \<lparr> opt_id = str ''work'', opt_name = str ''Work'', opt_color = str ''#f59e0b'' \<rparr>,
      \<lparr> opt_id = str ''other'', opt_name = str ''Other'', opt_color = str ''#6b7280'' \<rparr>]"

definition getAllCategories :: "VenueConfig \<Rightarrow> CategoryOption Entry list" where
  "getAllCategories cfg =
     map BuiltIn defaultCategories @
     map Own (case customCategories cfg of None \<Rightarrow> [] | Some cs \<Rightarrow> cs)"

definition defaultPriorities :: "OptionView list" where
  "defaultPriorities =
     [\<lparr> opt_id = str ''high'', opt_name = str ''High'', opt_color = str ''#ef4444'' \<rparr>,
      \<lparr> opt_id = str ''medium'', opt_name = str ''Medium'', opt_color = str ''#f59e0b'' \<rparr>,
      \<lparr> opt_id = str ''low'', opt_name = str ''Low'', opt_color = str ''#10b981'' \<rparr>]"

text \<open>
  \<^verbatim>\<open>sort\<close> sorts the array it is called on: when the configuration has custom
  priorities, it is their array that is reordered, and the function's second result
  is the configuration after the call. The comparison function is
  \<^verbatim>\<open>(a, b) => b.level - a.level\<close>, a number, NaN when a level is NaN or when both
  levels are the same infinity.
\<close>

definition byLevelDescending :: "PriorityOption \<Rightarrow> PriorityOption \<Rightarrow> int" where
  "byLevelDescending a b = sort_order (number_minus (level b) (level a))"

definition getAllPriorities :: "VenueConfig \<Rightarrow> PriorityOption Entry list \<times> VenueConfig" where
  "getAllPriorities cfg =
     (let custom = array_sort byLevelDescending
            (case customPriorities cfg of None \<Rightarrow> [] | Some ps \<Rightarrow> ps)
      in (map BuiltIn defaultPriorities @ map Own custom,
          cfg\<lparr> customPriorities := map_option (\<lambda>ps. custom) (customPriorities cfg) \<rparr>))"

text \<open>
  The service that keeps the configuration in local storage has the same two
  functions; its \<^verbatim>\<open>getAllCategories\<close> ("default + custom active ones") keeps the
  active custom categories and returns id, name and color of each.
\<close>

definition getAllCategories_localStorage :: "VenueConfig \<Rightarrow> OptionView list" where
  "getAllCategories_localStorage cfg =
     (let customCategories' =
            map (\<lambda>cat. \<lparr> opt_id = cat_id cat, opt_name = cat_name cat, opt_color = cat_color cat \<rparr>)
              (filter (\<lambda>cat. cat_isActive cat)
                 (case customCategories cfg of None \<Rightarrow> [] | Some cs \<Rightarrow> cs))
      in defaultCategories @ customCategories')"

text \<open>
  Its \<^verbatim>\<open>getAllPriorities\<close> keeps the active custom priorities, takes id, name and
  color of each and sorts these by the level that the first custom priority with the
  same id has, read as \<^verbatim>\<open>level || 5\<close>: 5 when there is no such priority or its
  level is 0 or NaN.
\<close>

definition getAllPriorities_localStorage :: "VenueConfig \<Rightarrow> OptionView list" where
  "getAllPriorities_localStorage cfg =
     (let levelOf = (\<lambda>a.
            case customPriorities cfg of
              None \<Rightarrow> Finite 5
            | Some ps \<Rightarrow>
               (case find (\<lambda>p. pri_id p = opt_id a) ps of
                  None \<Rightarrow> Finite 5
                | Some p \<Rightarrow> if falsy_number (level p) then Finite 5 else level p));
          customPriorities' =
            array_sort (\<lambda>a b. sort_order (number_minus (levelOf b) (levelOf a)))
              (map (\<lambda>priority. \<lparr> opt_id = pri_id priority, opt_name = pri_name priority,
                                  opt_color = pri_color priority \<rparr>)
                 (filter (\<lambda>priority. pri_isActive priority)
                    (case customPriorities cfg of None \<Rightarrow> [] | Some ps \<Rightarrow> ps)))
      in defaultPriorities @ customPriorities')"

subsection \<open>Updating, exporting and importing\<close>

text \<open>
  The service holds \<open>config\<close>, \<open>null\<close> until the first call loads it. Every call talks
  to the backend; \<open>Backend\<close> is what the backend answers during one call:
  \<^item> \<open>load\<close>: what becomes of \<^verbatim>\<open>ensureLoaded\<close> when it has to load. The request
    for the configuration fails (\<open>LoadFailed\<close>); or it succeeds and \<open>config\<close> is
    assigned, with empty lists, and then a request for the lists fails
    (\<open>ListsFailed\<close>); or all of it succeeds (\<open>Loaded\<close>). The object is the one that
    the function builds from the answers; a property of it may hold \<open>undefined\<close>,
    as \<open>capacity\<close> of a location does when the answer has none;
  \<^item> \<open>venueId_ok\<close>: the request of \<^verbatim>\<open>getVenueId\<close> succeeds;
  \<^item> \<open>put_ok\<close>: the \<open>PUT\<close> of the merged configuration is accepted.
\<close>

datatype load_result = LoadFailed | ListsFailed object | Loaded object

record Backend =
  load :: load_result
  venueId_ok :: bool
  put_ok :: bool

record ConfigService =
  config :: "object option"

datatype error = LoadError | NetworkError | TypeError | UpdateError | SyntaxError

definition ensureLoaded :: "Backend \<Rightarrow> ConfigService \<Rightarrow> (error + object) \<times> ConfigService" where
  "ensureLoaded backend this =
     (case config this of
        Some c \<Rightarrow> (Inr c, this)
      | None \<Rightarrow>
         (case load backend of
            LoadFailed \<Rightarrow> (Inl LoadError, this)
          | ListsFailed c \<Rightarrow> (Inl NetworkError, this\<lparr> config := Some c \<rparr>)
          | Loaded c \<Rightarrow> (Inr c, this\<lparr> config := Some c \<rparr>)))"

definition getConfig :: "Backend \<Rightarrow> ConfigService \<Rightarrow> (error + object) \<times> ConfigService" where
  "getConfig backend this = ensureLoaded backend this"

text \<open>
  \<^verbatim>\<open>updateConfig(updates)\<close>. Building the payload reads
  \<^verbatim>\<open>merged.features.showAttendees\<close>, which throws a \<open>TypeError\<close> when
  \<^verbatim>\<open>merged.features\<close> is \<open>undefined\<close> or \<open>null\<close>, and reads \<open>undefined\<close> from any
  other value. \<open>this.config\<close> is assigned after the \<open>PUT\<close> was accepted, and nowhere
  before.
\<close>

definition updateConfig :: "Backend \<Rightarrow> jsval \<Rightarrow> ConfigService \<Rightarrow> error option \<times> ConfigService" where
  "updateConfig backend updates this =
     (case ensureLoaded backend this of
        (Inl e, this') \<Rightarrow> (Some e, this')
      | (Inr current, this') \<Rightarrow>
         (let merged = spread current (own_props updates)
          in if \<not> venueId_ok backend then (Some NetworkError, this')
             else if get_prop merged (str ''features'') = Undefined \<or> get_prop merged (str ''features'') = Null
               then (Some TypeError, this')
             else if \<not> put_ok backend then (Some UpdateError, this')
             else (None, this'\<lparr> config := Some merged \<rparr>)))"

definition exportConfig :: "Backend \<Rightarrow> ConfigService \<Rightarrow> (error + json_text) \<times> ConfigService" where
  "exportConfig backend this =
     (case getConfig backend this of
        (Inl e, this') \<Rightarrow> (Inl e, this')
      | (Inr cfg, this') \<Rightarrow> (Inr (JSON_stringify (Obj cfg)), this'))"

definition importConfig :: "Backend \<Rightarrow> json_text \<Rightarrow> ConfigService \<Rightarrow> bool \<times> ConfigService" where
  "importConfig backend jsonString this =
     (case JSON_parse jsonString of
        None \<Rightarrow> (False, this)
      | Some imported \<Rightarrow>
         (case updateConfig backend imported this of
            (Some e, this') \<Rightarrow> (False, this')
          | (None, this') \<Rightarrow> (True, this')))"

text \<open>
  The local-storage service imports over the defaults, and only what
  \<^verbatim>\<open>typeof\<close> calls an object.
\<close>

definition importConfig_localStorage :: "json_text \<Rightarrow> object \<Rightarrow> bool \<times> object" where
  "importConfig_localStorage jsonString config' =
     (case JSON_parse jsonString of
        None \<Rightarrow> (False, config')
      | Some importedConfig \<Rightarrow>
         (case importedConfig of
            Obj ps \<Rightarrow> (True, spread (encode_config DEFAULT_CONFIG) (own_props importedConfig))
          | Arr xs \<Rightarrow> (True, spread (encode_config DEFAULT_CONFIG) (own_props importedConfig))
          | _ \<Rightarrow> (False, config')))"

text \<open>
  Two notions of the statements about export and import. \<open>json_value v\<close>: JSON
  represents \<open>v\<close>, which holds no NaN, no infinity and no \<open>undefined\<close> but as the
  value of a property of an object. \<open>defined_part v\<close>: \<open>v\<close> without the properties
  whose value is \<open>undefined\<close>, which read as \<open>undefined\<close> when they are absent
  too.
\<close>

fun json_value :: "jsval \<Rightarrow> bool"
  and json_elements :: "jsval list \<Rightarrow> bool"
  and json_properties :: "(jsstring \<times> jsval) list \<Rightarrow> bool" where
  "json_value Undefined = False"
| "json_value Null = True"
| "json_value (Bool b) = True"
| "json_value (Num n) = (case n of Finite r \<Rightarrow> True | _ \<Rightarrow> False)"
| "json_value (Str s) = True"
| "json_value (Arr xs) = json_elements xs"
| "json_value (Obj ps) = json_properties ps"
| "json_elements [] = True"
| "json_elements (x # xs) = (json_value x \<and> json_elements xs)"
| "json_properties [] = True"
| "json_properties ((k, v) # ps) = ((v = Undefined \<or> json_value v) \<and> json_properties ps)"

fun defined_part :: "jsval \<Rightarrow> jsval"
  and defined_elements :: "jsval list \<Rightarrow> jsval list"
  and defined_properties :: "(jsstring \<times> jsval) list \<Rightarrow> (jsstring \<times> jsval) list" where
  "defined_part Undefined = Undefined"
| "defined_part Null = Null"
| "defined_part (Bool b) = Bool b"
| "defined_part (Num n) = Num n"
| "defined_part (Str s) = Str s"
| "defined_part (Arr xs) = Arr (defined_elements xs)"
| "defined_part (Obj ps) = Obj (defined_properties ps)"
| "defined_elements [] = []"
| "defined_elements (x # xs) = defined_part x # defined_elements xs"
| "defined_properties [] = []"
| "defined_properties ((k, v) # ps) =
     (if v = Undefined then defined_properties ps else (k, defined_part v) # defined_properties ps)"

section \<open>ConfigPage: adding a priority\<close>

text \<open>
  \<^verbatim>\<open>addPriority\<close> asks for a name and, when it gets one, for a level.
  \<^verbatim>\<open>prompt\<close> returns the text typed, or \<open>null\<close> when the dialog is cancelled
  (\<open>None\<close>); an empty text and \<open>null\<close> are falsy. \<open>now\<close> is \<^verbatim>\<open>Date.now()\<close>. The
  result is the configuration of the page after the call.
\<close>

definition orElse :: "jsstring option \<Rightarrow> jsstring \<Rightarrow> jsstring" where
  "orElse answer fallback =
     (case answer of None \<Rightarrow> fallback | Some s \<Rightarrow> if s = [] then fallback else s)"

definition addPriority :: "jsstring option \<Rightarrow> jsstring option \<Rightarrow> int \<Rightarrow> VenueConfig \<Rightarrow> VenueConfig" where
  "addPriority name levelAnswer now config' =
     (case name of
        None \<Rightarrow> config'
      | Some name' \<Rightarrow>
         if name' = [] then config'
         else
           (let level' = parseInt (orElse levelAnswer (str ''5''));
                newPriority =
                  \<lparr> pri_id = str ''priority-'' @ integer_string now,
                    pri_name = name',
                    pri_color = str ''#6b7280'',
                    level = Math_max (Finite 1) (Math_min (Finite 10) level'),
                    pri_isActive = True \<rparr>;
                existing = (case customPriorities config' of None \<Rightarrow> [] | Some ps \<Rightarrow> ps)
            in config'\<lparr> customPriorities := Some (existing @ [newPriority]) \<rparr>))"

section \<open>Lemmas: the calendar\<close>

lemma divmod_bounds:
  fixes x k :: int
  assumes "0 < k"
  shows "k * (x div k) \<le> x" and "x < k * (x div k) + k"
proof -
  have "x = k * (x div k) + x mod k" by simp
  moreover have "0 \<le> x mod k" "x mod k < k" using assms by simp_all
  ultimately show "k * (x div k) \<le> x" "x < k * (x div k) + k" by linarith+
qed

lemma div_eqI:
  fixes x k q :: int
  assumes "0 < k" "k * q \<le> x" "x < k * q + k"
  shows "x div k = q"
proof (rule int_div_pos_eq)
  show "x = k * q + (x - k * q)" by simp
  show "0 \<le> x - k * q" "x - k * q < k" using assms by linarith+
qed

lemma year_of_era_props:
  assumes "0 \<le> doe" "doe < 146097" "year_of_era doe = (yoe, doy)"
  shows "0 \<le> yoe" "yoe \<le> 399" "0 \<le> doy" "doy \<le> 365"
    "365 * yoe + yoe div 4 - yoe div 100 + doy = doe"
proof -
  define c where "c = min (doe div 36524) 3"
  define doc where "doc = doe - 36524 * c"
  define q where "q = doc div 1461"
  define doq where "doq = doc - 1461 * q"
  define r where "r = min (doq div 365) 3"
  have yoe: "yoe = 100 * c + 4 * q + r" and doy: "doy = doq - 365 * r"
    using assms(3) unfolding year_of_era_def Let_def c_def doc_def q_def doq_def r_def by simp_all
  have c1: "36524 * (doe div 36524) \<le> doe" "doe < 36524 * (doe div 36524) + 36524"
    using divmod_bounds[of 36524 doe] by simp_all
  have c: "0 \<le> c" "c \<le> 3" using c1 assms(1) unfolding c_def by linarith+
  have docb: "0 \<le> doc" "doc \<le> 36524" using c1 assms(1,2) unfolding doc_def c_def by linarith+
  have q1: "1461 * q \<le> doc" "doc < 1461 * q + 1461"
    using divmod_bounds[of 1461 doc] unfolding q_def by simp_all
  have q: "0 \<le> q" "q \<le> 24" using q1 docb by linarith+
  have doqb: "0 \<le> doq" "doq \<le> 1460" using q1 unfolding doq_def by linarith+
  have r1: "365 * (doq div 365) \<le> doq" "doq < 365 * (doq div 365) + 365"
    using divmod_bounds[of 365 doq] by simp_all
  have r: "0 \<le> r" "r \<le> 3" using r1 doqb unfolding r_def by linarith+
  show "0 \<le> yoe" "yoe \<le> 399" using c q r unfolding yoe by linarith+
  show "0 \<le> doy" "doy \<le> 365" using r1 doqb unfolding doy r_def by linarith+
  have d4: "yoe div 4 = 25 * c + q"
    by (rule div_eqI) (use r in \<open>simp_all add: yoe\<close>)
  have d100: "yoe div 100 = c"
    by (rule div_eqI) (use q r in \<open>simp_all add: yoe\<close>)
  show "365 * yoe + yoe div 4 - yoe div 100 + doy = doe"
    unfolding d4 d100 unfolding yoe doy doq_def doc_def by simp
qed

lemma month_of_doy_bounds:
  assumes "0 \<le> doy" "doy \<le> 365"
  shows "0 \<le> month_of_doy doy" "month_of_doy doy \<le> 11"
proof -
  have "153 * month_of_doy doy \<le> 5 * doy + 2" "5 * doy + 2 < 153 * month_of_doy doy + 153"
    using divmod_bounds[of 153 "5 * doy + 2"] unfolding month_of_doy_def by simp_all
  then show "0 \<le> month_of_doy doy" "month_of_doy doy \<le> 11" using assms by linarith+
qed

text \<open>Every day number is the day number of its calendar date.\<close>

lemma days_from_civil_of_civil:
  assumes "civil_from_days z = (y, m, d)"
  shows "days_from_civil y m d = z"
proof -
  define n where "n = z + 719468"
  define era where "era = n div 146097"
  define doe where "doe = n mod 146097"
  obtain yoe doy where yd: "year_of_era doe = (yoe, doy)" by (cases "year_of_era doe")
  define mp where "mp = month_of_doy doy"
  have doe: "0 \<le> doe" "doe < 146097" unfolding doe_def by simp_all
  note P = year_of_era_props[OF doe yd]
  have mpb: "0 \<le> mp" "mp \<le> 11" unfolding mp_def using month_of_doy_bounds P by simp_all
  have y: "y = (if (if mp < 10 then mp + 2 else mp - 10) \<le> 1 then 400 * era + yoe + 1 else 400 * era + yoe)"
    and m: "m = (if mp < 10 then mp + 2 else mp - 10)"
    and d: "d = doy - month_start mp + 1"
    using assms yd unfolding civil_from_days_def Let_def n_def[symmetric] era_def[symmetric]
      doe_def[symmetric] mp_def by auto
  have yy: "(if m \<le> 1 then y - 1 else y) = 400 * era + yoe" unfolding y m by simp
  have mp': "(if m \<le> 1 then m + 10 else m - 2) = mp" unfolding m using mpb by simp
  have e: "(400 * era + yoe) div 400 = era"
    by (rule div_eqI) (use P in simp_all)
  have o: "(400 * era + yoe) mod 400 = yoe"
    using e by (simp add: mod_pos_pos_trivial P)
  have n: "n = era * 146097 + doe" unfolding era_def doe_def by simp
  have "days_from_civil y m d = era * 146097 + (365 * yoe + yoe div 4 - yoe div 100 + (month_start mp + d - 1)) - 719468"
    unfolding days_from_civil_def Let_def yy mp' e o by simp
  also have "\<dots> = era * 146097 + doe - 719468" using P(5) unfolding d by simp
  also have "\<dots> = z" using n unfolding n_def by simp
  finally show ?thesis .
qed


lemma year_of_era_inverse:
  assumes "0 \<le> yoe" "yoe \<le> 399" "0 \<le> doy" "doy \<le> 365" "doy = 365 \<Longrightarrow> leap_end yoe"
  defines "doe \<equiv> 365 * yoe + yoe div 4 - yoe div 100 + doy"
  shows "year_of_era doe = (yoe, doy)" "0 \<le> doe" "doe < 146097"
proof -
  define c where "c = yoe div 100"
  define m100 where "m100 = yoe mod 100"
  define q where "q = m100 div 4"
  define r where "r = yoe mod 4"
  have y100: "yoe = 100 * c + m100" unfolding c_def m100_def by simp
  have m100: "0 \<le> m100" "m100 < 100" unfolding m100_def by simp_all
  have "m100 mod 4 = r" unfolding m100_def r_def by (simp add: mod_mod_cancel)
  then have m4: "m100 = 4 * q + r" unfolding q_def by (metis mult_div_mod_eq)
  have yoe: "yoe = 100 * c + 4 * q + r" using y100 m4 by simp
  have r: "0 \<le> r" "r \<le> 3" unfolding r_def by simp_all
  have c: "0 \<le> c" "c \<le> 3" using y100 m100 assms(1,2) by linarith+
  have q: "0 \<le> q" "q \<le> 24" using m4 m100 r by linarith+
  have d4: "yoe div 4 = 25 * c + q"
    by (rule div_eqI) (use r in \<open>simp_all add: yoe\<close>)
  have d100: "yoe div 100 = c" by (simp add: c_def)
  have doe: "doe = 36524 * c + 1461 * q + 365 * r + doy"
    unfolding doe_def d4 d100 unfolding yoe by simp
  have last: "doy \<le> 364 \<or> (r = 3 \<and> (q < 24 \<or> c = 3))"
  proof (cases "doy = 365")
    case True
    then have "leap_end yoe" by (rule assms(5))
    then have l: "r = 3" "m100 \<noteq> 99 \<or> yoe = 399"
      unfolding leap_end_def r_def m100_def by simp_all
    have "q < 24 \<or> c = 3"
    proof (cases "yoe = 399")
      case True
      then show ?thesis unfolding c_def by simp
    next
      case False
      then have "m100 \<noteq> 99" using l by simp
      then show ?thesis using m4 l(1) q by linarith
    qed
    then show ?thesis using l(1) by simp
  next
    case False
    then show ?thesis using assms(4) by simp
  qed
  show "0 \<le> doe" "doe < 146097" unfolding doe using c q r assms(3,4) last by linarith+
  have c': "min (doe div 36524) 3 = c"
  proof (cases "c = 3")
    case True
    have "3 \<le> doe div 36524"
      using divmod_bounds(2)[of 36524 doe] q r assms(3) unfolding doe True by linarith
    then show ?thesis using True by simp
  next
    case False
    have "36524 * c \<le> doe" "doe < 36524 * c + 36524"
      using False c q r assms(3,4) last unfolding doe by linarith+
    then have "doe div 36524 = c"
      by (intro div_eqI) simp_all
    then show ?thesis using c by simp
  qed
  have q': "(doe - 36524 * c) div 1461 = q"
    by (rule div_eqI) (use r assms(3,4) in \<open>simp_all add: doe\<close>)
  have r': "min ((doe - 36524 * c - 1461 * q) div 365) 3 = r"
  proof (cases "r = 3")
    case True
    have "3 \<le> (doe - 36524 * c - 1461 * q) div 365"
      using divmod_bounds(2)[of 365 "doe - 36524 * c - 1461 * q"] assms(3) unfolding doe True by linarith
    then show ?thesis using True by simp
  next
    case False
    have "365 * r \<le> doe - 36524 * c - 1461 * q" "doe - 36524 * c - 1461 * q < 365 * r + 365"
      using False r assms(3,4) last unfolding doe by linarith+
    then have "(doe - 36524 * c - 1461 * q) div 365 = r"
      by (intro div_eqI) simp_all
    then show ?thesis using r by simp
  qed
  show "year_of_era doe = (yoe, doy)"
    unfolding year_of_era_def Let_def c' q' r' unfolding doe yoe by simp
qed

lemma month_of_doy_start:
  assumes "0 \<le> mp" "mp \<le> 11" "1 \<le> d"
    "d \<le> (if mp = 11 then 29 else if mp = 1 \<or> mp = 3 \<or> mp = 6 \<or> mp = 8 then 30 else 31)"
  shows "month_of_doy (month_start mp + d - 1) = mp"
proof -
  have "mp = 0 \<or> mp = 1 \<or> mp = 2 \<or> mp = 3 \<or> mp = 4 \<or> mp = 5 \<or> mp = 6 \<or> mp = 7 \<or>
      mp = 8 \<or> mp = 9 \<or> mp = 10 \<or> mp = 11"
    using assms(1,2) by presburger
  then show ?thesis
    using assms(3,4)
    by (elim disjE; simp add: month_start_def month_of_doy_def; intro div_eqI; linarith)
qed


lemma mod_pred:
  fixes y k :: int
  assumes "y mod k = 0" "1 < k"
  shows "(y - 1) mod k = k - 1"
proof -
  have "(y - 1) mod k = (y mod k - 1) mod k" by (simp add: mod_diff_left_eq)
  also have "\<dots> = k - 1" using assms by (simp add: zmod_minus1)
  finally show ?thesis .
qed

lemma mod_succ:
  fixes y k :: int
  assumes "(y - 1) mod k = k - 1" "0 < k"
  shows "y mod k = 0"
proof -
  have "y mod k = ((y - 1) mod k + 1) mod k" by (simp add: mod_add_left_eq)
  also have "\<dots> = k mod k" using assms(1) by simp
  finally show ?thesis by simp
qed

lemma leap_end_of_leap_year:
  assumes "isLeapYear y"
  shows "leap_end ((y - 1) mod 400)"
proof -
  have a: "y mod 4 = 0" and b: "y mod 100 \<noteq> 0 \<or> y mod 400 = 0"
    using assms unfolding isLeapYear_def by simp_all
  have "((y - 1) mod 400) mod 4 = (y - 1) mod 4" by (simp add: mod_mod_cancel)
  also have "\<dots> = 3" using mod_pred[OF a] by simp
  finally have 1: "((y - 1) mod 400) mod 4 = 3" .
  have c: "((y - 1) mod 400) mod 100 = (y - 1) mod 100" by (simp add: mod_mod_cancel)
  have 2: "((y - 1) mod 400) mod 100 \<noteq> 99 \<or> (y - 1) mod 400 = 399"
  proof (cases "y mod 400 = 0")
    case True
    then have "(y - 1) mod 400 = 399" using mod_pred[of y 400] by simp
    then show ?thesis by simp
  next
    case False
    then have "y mod 100 \<noteq> 0" using b by simp
    then have "(y - 1) mod 100 \<noteq> 99" using mod_succ[of y 100] by auto
    then show ?thesis using c by simp
  qed
  show ?thesis unfolding leap_end_def using 1 2 by simp
qed

text \<open>The calendar date of a day number made from a date of the calendar is that date.\<close>

lemma civil_of_days_from_civil:
  assumes "0 \<le> m" "m \<le> 11" "1 \<le> d" "d \<le> DaysInMonth y m"
  shows "civil_from_days (days_from_civil y m d) = (y, m, d)"
proof -
  define yy where "yy = (if m \<le> 1 then y - 1 else y)"
  define era where "era = yy div 400"
  define yoe where "yoe = yy mod 400"
  define mp where "mp = (if m \<le> 1 then m + 10 else m - 2)"
  define doy where "doy = month_start mp + d - 1"
  define doe where "doe = 365 * yoe + yoe div 4 - yoe div 100 + doy"
  have z: "days_from_civil y m d = era * 146097 + doe - 719468"
    unfolding days_from_civil_def Let_def yy_def era_def yoe_def mp_def doy_def doe_def by simp
  have mpb: "0 \<le> mp" "mp \<le> 11" unfolding mp_def using assms(1,2) by auto
  have m': "(if mp < 10 then mp + 2 else mp - 10) = m" unfolding mp_def using assms(1,2) by auto
  have len: "d \<le> (if mp = 11 then 29 else if mp = 1 \<or> mp = 3 \<or> mp = 6 \<or> mp = 8 then 30 else 31)"
    using assms unfolding mp_def DaysInMonth_def by (auto split: if_splits)
  have cases: "mp = 0 \<or> mp = 1 \<or> mp = 2 \<or> mp = 3 \<or> mp = 4 \<or> mp = 5 \<or> mp = 6 \<or> mp = 7 \<or>
      mp = 8 \<or> mp = 9 \<or> mp = 10 \<or> mp = 11"
    using mpb by presburger
  have doyb: "0 \<le> doy \<and> doy \<le> 365 \<and> (doy = 365 \<longrightarrow> mp = 11 \<and> d = 29)"
    using cases assms(3) len unfolding doy_def
    by (elim disjE; simp add: month_start_def)
  have leap: "leap_end yoe" if "doy = 365"
  proof -
    have "mp = 11" "d = 29" using doyb that by simp_all
    then have "m = 1" using assms(2) unfolding mp_def by (auto split: if_splits)
    then have "isLeapYear y" using assms(4) \<open>d = 29\<close> unfolding DaysInMonth_def by (auto split: if_splits)
    then show ?thesis using leap_end_of_leap_year \<open>m = 1\<close> unfolding yoe_def yy_def by simp
  qed
  have yoeb: "0 \<le> yoe" "yoe \<le> 399" unfolding yoe_def by simp_all
  have inv: "year_of_era doe = (yoe, doy)" "0 \<le> doe" "doe < 146097"
    unfolding doe_def using year_of_era_inverse[OF yoeb _ _ leap] doyb by simp_all
  have n: "days_from_civil y m d + 719468 = era * 146097 + doe" using z by simp
  have e: "(era * 146097 + doe) div 146097 = era"
    by (rule div_eqI) (use inv in simp_all)
  have o: "(era * 146097 + doe) mod 146097 = doe"
    using inv by (simp add: mod_pos_pos_trivial)
  have mo: "month_of_doy doy = mp"
    unfolding doy_def using month_of_doy_start[OF mpb assms(3) len] .
  have yy: "400 * era + yoe = yy" unfolding era_def yoe_def by simp
  have y: "(if m \<le> 1 then yy + 1 else yy) = y" unfolding yy_def by simp
  show ?thesis
    unfolding civil_from_days_def Let_def n e o inv(1) prod.case mo m' yy y
    unfolding doy_def by simp
qed

lemma DaysInMonth_bounds: "28 \<le> DaysInMonth y m" "DaysInMonth y m \<le> 31"
  unfolding DaysInMonth_def by simp_all

lemma div_pred:
  fixes y k :: int
  assumes "0 < k"
  shows "(y - 1) div k = (if y mod k = 0 then y div k - 1 else y div k)"
proof (cases "y mod k = 0")
  case True
  have "y = k * (y div k) + y mod k" by simp
  then have y: "y = k * (y div k)" using True by simp
  have "k * (y div k - 1) \<le> y - 1" "y - 1 < k * (y div k - 1) + k"
    using assms y by (simp_all add: algebra_simps)
  then have "(y - 1) div k = y div k - 1"
    using assms by (intro div_eqI)
  then show ?thesis using True by simp
next
  case False
  have y: "y = k * (y div k) + y mod k" by simp
  have "0 \<le> y mod k" "y mod k < k" using assms by simp_all
  then have r: "1 \<le> y mod k" "y mod k < k" using False by linarith+
  have "k * (y div k) \<le> y - 1" "y - 1 < k * (y div k) + k"
    using y r by linarith+
  then have "(y - 1) div k = y div k"
    using assms by (intro div_eqI)
  then show ?thesis using False by simp
qed


lemma div_add_mult:
  fixes w e k :: int
  assumes "k \<noteq> 0"
  shows "(w + e * k) div k = w div k + e"
  using assms by simp

lemma year_start_closed: "year_start yy = 365 * yy + yy div 4 - yy div 100 + yy div 400"
proof -
  define e where "e = yy div 400"
  define w where "w = yy mod 400"
  have yy: "yy = w + 400 * e" unfolding e_def w_def by simp
  have "yy div 4 = (w + (100 * e) * 4) div 4" using yy by simp
  also have "\<dots> = w div 4 + 100 * e" by (rule div_add_mult) simp
  finally have d4: "yy div 4 = w div 4 + 100 * e" .
  have "yy div 100 = (w + (4 * e) * 100) div 100" using yy by simp
  also have "\<dots> = w div 100 + 4 * e" by (rule div_add_mult) simp
  finally have d100: "yy div 100 = w div 100 + 4 * e" .
  have "year_start yy = e * 146097 + 365 * w + w div 4 - w div 100"
    unfolding year_start_def e_def w_def by simp
  also have "\<dots> = 365 * yy + yy div 4 - yy div 100 + e"
    unfolding d4 d100 unfolding yy by simp
  finally show ?thesis unfolding e_def .
qed


lemma days_from_civil_year_start:
  "days_from_civil y m d =
     year_start (if m \<le> 1 then y - 1 else y) + month_start (if m \<le> 1 then m + 10 else m - 2) + d - 1 - 719468"
  unfolding days_from_civil_def year_start_def Let_def by simp

lemma year_start_step: "year_start y = year_start (y - 1) + 365 + (if isLeapYear y then 1 else 0)"
proof -
  have a: "y mod 100 = 0" if "y mod 400 = 0"
  proof -
    have "y mod 100 = (y mod 400) mod 100" by (simp add: mod_mod_cancel)
    then show ?thesis using that by simp
  qed
  have b: "y mod 4 = 0" if "y mod 100 = 0"
  proof -
    have "y mod 4 = (y mod 100) mod 4" by (simp add: mod_mod_cancel)
    then show ?thesis using that by simp
  qed
  have d4: "(y - 1) div 4 = (if y mod 4 = 0 then y div 4 - 1 else y div 4)" by (rule div_pred) simp
  have d100: "(y - 1) div 100 = (if y mod 100 = 0 then y div 100 - 1 else y div 100)" by (rule div_pred) simp
  have d400: "(y - 1) div 400 = (if y mod 400 = 0 then y div 400 - 1 else y div 400)" by (rule div_pred) simp
  show ?thesis
    unfolding year_start_closed isLeapYear_def d4 d100 d400 using a b
    by (cases "y mod 4 = 0"; cases "y mod 100 = 0"; cases "y mod 400 = 0") simp_all
qed


text \<open>1 January of year y is the day the standard calls DayFromYear(y).\<close>

lemma day_from_year:
  "days_from_civil y 0 1 = 365 * (y - 1970) + (y - 1969) div 4 - (y - 1901) div 100 + (y - 1601) div 400"
proof -
  have "(y - 1969) div 4 = (y - 1 + (- 492) * 4) div 4" by simp
  also have "\<dots> = (y - 1) div 4 + (- 492)" by (rule div_add_mult) simp
  finally have d4: "(y - 1969) div 4 = (y - 1) div 4 - 492" by simp
  have "(y - 1901) div 100 = (y - 1 + (- 19) * 100) div 100" by simp
  also have "\<dots> = (y - 1) div 100 + (- 19)" by (rule div_add_mult) simp
  finally have d100: "(y - 1901) div 100 = (y - 1) div 100 - 19" by simp
  have "(y - 1601) div 400 = (y - 1 + (- 4) * 400) div 400" by simp
  also have "\<dots> = (y - 1) div 400 + (- 4)" by (rule div_add_mult) simp
  finally have d400: "(y - 1601) div 400 = (y - 1) div 400 - 4" by simp
  show ?thesis
    unfolding days_from_civil_year_start year_start_closed d4 d100 d400
    by (simp add: month_start_def)
qed

text \<open>The day after a date of the calendar: the next day of the month, or the first of
  the next month after the last day of a month, or 1 January after 31 December.\<close>

lemma next_day:
  assumes "0 \<le> m" "m \<le> 11"
  shows "days_from_civil y m (DaysInMonth y m) + 1 =
     (if m < 11 then days_from_civil y (m + 1) 1 else days_from_civil (y + 1) 0 1)"
proof -
  have "m = 0 \<or> m = 1 \<or> m = 2 \<or> m = 3 \<or> m = 4 \<or> m = 5 \<or> m = 6 \<or> m = 7 \<or>
      m = 8 \<or> m = 9 \<or> m = 10 \<or> m = 11"
    using assms by presburger
  then show ?thesis
    using year_start_step[of y]
    by (elim disjE; simp add: days_from_civil_year_start month_start_def DaysInMonth_def)
qed

lemma days_from_civil_add: "days_from_civil y m (d + k) = days_from_civil y m d + k"
  unfolding days_from_civil_def Let_def by simp

lemma civil_from_days_month:
  assumes "civil_from_days z = (y, m, d)"
  shows "0 \<le> m" "m \<le> 11"
proof -
  define doe where "doe = (z + 719468) mod 146097"
  obtain yoe doy where yd: "year_of_era doe = (yoe, doy)" by (cases "year_of_era doe")
  have doe: "0 \<le> doe" "doe < 146097" unfolding doe_def by simp_all
  note P = year_of_era_props[OF doe yd]
  have mpb: "0 \<le> month_of_doy doy" "month_of_doy doy \<le> 11"
    using month_of_doy_bounds P by simp_all
  have m: "m = (if month_of_doy doy < 10 then month_of_doy doy + 2 else month_of_doy doy - 10)"
    using assms yd unfolding civil_from_days_def Let_def doe_def[symmetric] by auto
  show "0 \<le> m" "m \<le> 11" unfolding m using mpb by auto
qed

lemma Day_MakeDate:
  assumes "0 \<le> tm" "tm < msPerDay"
  shows "Day (MakeDate d tm) = d" "TimeWithinDay (MakeDate d tm) = tm"
proof -
  have "msPerDay * d \<le> MakeDate d tm" "MakeDate d tm < msPerDay * d + msPerDay"
    using assms unfolding MakeDate_def by simp_all
  then show "Day (MakeDate d tm) = d" unfolding Day_def
    by (intro div_eqI) (simp_all add: msPerDay_def)
  then show "TimeWithinDay (MakeDate d tm) = tm"
    unfolding TimeWithinDay_def Day_def MakeDate_def
    by (metis add.commute add_diff_cancel_left' minus_mult_div_eq_mod mult.commute)
qed

lemma MakeDate_Day: "MakeDate (Day t) (TimeWithinDay t) = t"
  unfolding MakeDate_def Day_def TimeWithinDay_def by simp

lemma MakeDay_civil:
  assumes "0 \<le> m" "m \<le> 11"
  shows "MakeDay y m d = days_from_civil y m d"
proof -
  have "m div 12 = 0" "m mod 12 = m" using assms by simp_all
  then show ?thesis
    unfolding MakeDay_def Let_def using days_from_civil_add[of y m 1 "d - 1"] by simp
qed

lemma MakeDay_own: "MakeDay (YearFromTime t) (MonthFromTime t) dt = Day t - DateFromTime t + dt"
proof -
  obtain y m d where c: "civil_from_days (Day t) = (y, m, d)" by (cases "civil_from_days (Day t)")
  have ymd: "YearFromTime t = y" "MonthFromTime t = m" "DateFromTime t = d"
    unfolding YearFromTime_def MonthFromTime_def DateFromTime_def c by simp_all
  have "MakeDay y m dt = days_from_civil y m dt"
    using civil_from_days_month[OF c] by (rule MakeDay_civil)
  also have "\<dots> = days_from_civil y m d + (dt - d)"
    using days_from_civil_add[of y m d "dt - d"] by simp
  also have "\<dots> = Day t + (dt - d)" using days_from_civil_of_civil[OF c] by simp
  finally show ?thesis unfolding ymd by simp
qed

lemma setDate_shift: "setDate t (getDate t + k) = t + k * msPerDay"
proof -
  have "setDate t (getDate t + k) = MakeDate (Day t + k) (TimeWithinDay t)"
    unfolding setDate_def getDate_def MakeDay_own by simp
  also have "\<dots> = MakeDate (Day t) (TimeWithinDay t) + k * msPerDay"
    unfolding MakeDate_def by (simp add: algebra_simps)
  finally show ?thesis unfolding MakeDate_Day .
qed

lemma Day_shift: "Day (t + k * msPerDay) = Day t + k"
  unfolding Day_def by (simp add: msPerDay_def)

lemma WeekDay_shift: "WeekDay (t + k * msPerDay) = (WeekDay t + k) mod 7"
  unfolding WeekDay_def Day_shift by (simp add: mod_simps algebra_simps)

lemma grid_loop_unrolled:
  "grid_loop 0 s [] [] =
     map (\<lambda>r. map (\<lambda>c. setDate s (getDate s + int (7 * r + c))) [0..<7]) [0..<6]"
  by (simp add: grid_loop.simps Let_def upt_rec)

text \<open>
  Checks of the calendar: day 0 is Thursday 1 January 1970, and two dates are the same
  day, as \<open>isSameDay\<close> compares them, exactly when their day numbers are equal.
\<close>

lemma civil_injective:
  assumes "civil_from_days z = civil_from_days z'"
  shows "z = z'"
proof -
  obtain y m d where c: "civil_from_days z = (y, m, d)" by (cases "civil_from_days z")
  show ?thesis
    using days_from_civil_of_civil[OF c] days_from_civil_of_civil[of z' y m d] assms c by simp
qed

lemma isSameDay_Day: "isSameDay date1 date2 = (Day date1 = Day date2)"
proof
  assume "isSameDay date1 date2"
  then have "civil_from_days (Day date1) = civil_from_days (Day date2)"
    unfolding isSameDay_def getFullYear_def getMonth_def getDate_def YearFromTime_def
      MonthFromTime_def DateFromTime_def by (simp add: prod_eq_iff)
  then show "Day date1 = Day date2" by (rule civil_injective)
next
  assume "Day date1 = Day date2"
  then show "isSameDay date1 date2"
    unfolding isSameDay_def getFullYear_def getMonth_def getDate_def YearFromTime_def
      MonthFromTime_def DateFromTime_def by simp
qed

lemma epoch: "civil_from_days 0 = (1970, 0, 1)" "WeekDay 0 = 4"
  by code_simp+

section \<open>The calendar grid\<close>

lemma new_Date_Day: "Day (new_Date y m d) = MakeDay (fullYear y) m d"
  and new_Date_time: "TimeWithinDay (new_Date y m d) = 0"
  unfolding new_Date_def by (simp_all add: Day_MakeDate msPerDay_def)

lemma new_Date_civil:
  assumes "1 \<le> d" "d \<le> DaysInMonth (fullYear y + m div 12) (m mod 12)"
  shows "civil_from_days (Day (new_Date y m d)) = (fullYear y + m div 12, m mod 12, d)"
proof -
  have "MakeDay (fullYear y) m d = days_from_civil (fullYear y + m div 12) (m mod 12) d"
    unfolding MakeDay_def Let_def using days_from_civil_add[of _ _ 1 "d - 1"] by simp
  then show ?thesis
    unfolding new_Date_Day using civil_of_days_from_civil[OF _ _ assms] by simp
qed

lemma getDay_range: "0 \<le> getDay t" "getDay t \<le> 6"
  unfolding getDay_def WeekDay_def by simp_all

lemma setDate_back: "setDate t (getDate t - k) = t - k * msPerDay"
  using setDate_shift[of t "- k"] by simp

lemma getCalendarGrid_cells:
  "getCalendarGrid year month =
     map (\<lambda>r. map (\<lambda>c. new_Date year month 1 - getDay (new_Date year month 1) * msPerDay
                          + int (7 * r + c) * msPerDay) [0..<7]) [0..<6]"
  unfolding getCalendarGrid_def Let_def grid_loop_unrolled setDate_back setDate_shift ..

text \<open>
  Whatever the year and the month, \<open>getCalendarGrid\<close> takes day 1 of a month from
  \<open>new Date(year, month, 1)\<close>, in the year as the constructor reads it; it steps back
  by the weekday of that day, from 0 to 6 days, to a Sunday, and returns 6 rows of 7
  dates, the 42 consecutive days from that Sunday on.
\<close>

lemma getCalendarGrid_rows:
  "let firstDay = new_Date year month 1;
       back = getDay firstDay;
       anchor = firstDay - back * msPerDay
   in getDate firstDay = 1 \<and> getMonth firstDay = month mod 12
      \<and> getFullYear firstDay = fullYear year + month div 12
      \<and> 0 \<le> back \<and> back \<le> 6
      \<and> getDay anchor = 0
      \<and> getCalendarGrid year month =
           map (\<lambda>r. map (\<lambda>c. anchor + int (7 * r + c) * msPerDay) [0..<7]) [0..<6]
      \<and> map length (getCalendarGrid year month) = [7, 7, 7, 7, 7, 7]
      \<and> map Day (concat (getCalendarGrid year month)) = map (\<lambda>i. Day anchor + int i) [0..<42]"
proof -
  define firstDay where "firstDay = new_Date year month 1"
  define anchor where "anchor = firstDay - getDay firstDay * msPerDay"
  have c: "civil_from_days (Day firstDay) = (fullYear year + month div 12, month mod 12, 1)"
    unfolding firstDay_def using DaysInMonth_bounds(1)[of "fullYear year + month div 12" "month mod 12"]
    by (intro new_Date_civil) simp_all
  have 1: "getDate firstDay = 1" "getMonth firstDay = month mod 12"
    "getFullYear firstDay = fullYear year + month div 12"
    unfolding getDate_def getMonth_def getFullYear_def DateFromTime_def MonthFromTime_def
      YearFromTime_def c by simp_all
  have 2: "getDay anchor = 0"
  proof -
    have "getDay anchor = (WeekDay firstDay + (- WeekDay firstDay)) mod 7"
      unfolding getDay_def anchor_def using WeekDay_shift[of firstDay "- WeekDay firstDay"] by simp
    then show ?thesis by simp
  qed
  have 3: "getCalendarGrid year month =
      map (\<lambda>r. map (\<lambda>c. anchor + int (7 * r + c) * msPerDay) [0..<7]) [0..<6]"
    unfolding anchor_def firstDay_def by (rule getCalendarGrid_cells)
  have 4: "map length (getCalendarGrid year month) = [7, 7, 7, 7, 7, 7]"
    unfolding 3 by (simp add: upt_rec)
  have 5: "map Day (concat (getCalendarGrid year month)) = map (\<lambda>i. Day anchor + int i) [0..<42]"
  proof -
    have "Day (anchor + msPerDay) = Day anchor + 1" using Day_shift[of anchor 1] by simp
    then show ?thesis unfolding 3 by (simp add: upt_rec Day_shift)
  qed
  show ?thesis
    unfolding Let_def firstDay_def[symmetric] anchor_def[symmetric]
    using 1 2 3 4 5 getDay_range[of firstDay] by simp
qed

text \<open>
  For a year that the constructor reads as it is, below 0 or above 99, that is the
  grid of the specification.
\<close>

lemma getCalendarGrid_full_years:
  assumes "year < 0 \<or> 99 < year"
  shows "getCalendarGrid year month = DateGrid_grid year month"
proof -
  have "new_Date year month 1 = firstDayOfMonth year month"
    unfolding new_Date_def firstDayOfMonth_def fullYear_def using assms by auto
  then show ?thesis
    unfolding getCalendarGrid_cells DateGrid_grid_def Let_def getDay_def by simp
qed

text \<open>
  C2. The grid of a month is found from the first day of that month. The code misses
  the years 0 to 99: for February of the year 50 it locates 1 February 1950, a
  Wednesday, and returns the grid of February 1950, from Sunday 29 January 1950 on. The
  first day of the month asked for, 1 February of the year 50, is a Tuesday; the grid
  that the algorithm describes starts on Sunday 30 January of the year 50, and that
  first day is in no cell of the grid returned.
\<close>

theorem getCalendarGrid_February_50:
  "getCalendarGrid 50 1 = DateGrid_grid 1950 1
   \<and> getCalendarGrid 50 1 \<noteq> DateGrid_grid 50 1
   \<and> (let cell = hd (hd (getCalendarGrid 50 1))
      in (getFullYear cell, getMonth cell, getDate cell, getDay cell) = (1950, 0, 29, 0))
   \<and> (let cell = hd (hd (DateGrid_grid 50 1))
      in (getFullYear cell, getMonth cell, getDate cell, getDay cell) = (50, 0, 30, 0))
   \<and> (getFullYear (firstDayOfMonth 50 1), getMonth (firstDayOfMonth 50 1),
       getDate (firstDayOfMonth 50 1), getDay (firstDayOfMonth 50 1)) = (50, 1, 1, 2)
   \<and> firstDayOfMonth 50 1 \<notin> set (concat (getCalendarGrid 50 1))"
  by code_simp

lemma getCalendarGrid_concat:
  "concat (getCalendarGrid year month) =
     map (\<lambda>i. new_Date year month 1 - getDay (new_Date year month 1) * msPerDay + int i * msPerDay) [0..<42]"
  unfolding getCalendarGrid_cells by (simp add: upt_rec)

lemma grid_member:
  assumes "0 \<le> k" "k < 42 - getDay (new_Date year month 1)"
  shows "new_Date year month 1 + k * msPerDay \<in> set (concat (getCalendarGrid year month))"
proof -
  define w where "w = getDay (new_Date year month 1)"
  have w: "0 \<le> w" unfolding w_def by (rule getDay_range)
  have "nat (w + k) \<in> set [0..<42]" using assms w unfolding w_def by simp
  moreover have "new_Date year month 1 + k * msPerDay =
      new_Date year month 1 - w * msPerDay + int (nat (w + k)) * msPerDay"
    using assms w by (simp add: algebra_simps)
  ultimately show ?thesis
    unfolding getCalendarGrid_concat w_def[symmetric] set_map by (rule image_eqI[rotated])
qed

lemma components_of_day:
  assumes "0 \<le> m" "m \<le> 11" "1 \<le> d" "d \<le> DaysInMonth y m"
    "Day t = days_from_civil y m d"
  shows "getFullYear t = y" "getMonth t = m" "getDate t = d"
  unfolding getFullYear_def getMonth_def getDate_def YearFromTime_def MonthFromTime_def
    DateFromTime_def assms(5) civil_of_days_from_civil[OF assms(1-4)] by simp_all

lemma lastDayOfMonth_Day:
  assumes "0 \<le> month" "month \<le> 11"
  shows "Day (lastDayOfMonth year month) =
           days_from_civil (fullYear year) month (DaysInMonth (fullYear year) month)"
proof (cases "month < 11")
  case True
  then have "(month + 1) div 12 = 0" "(month + 1) mod 12 = month + 1" using assms by simp_all
  then show ?thesis
    unfolding lastDayOfMonth_def new_Date_Day MakeDay_def Let_def
    using next_day[OF assms, of "fullYear year"] True by simp
next
  case False
  then have m: "month = 11" using assms by simp
  show ?thesis
    unfolding lastDayOfMonth_def new_Date_Day MakeDay_def Let_def m
    using next_day[of 11 "fullYear year"] by simp
qed

lemma lastDayOfMonth_time: "TimeWithinDay (lastDayOfMonth year month) = 0"
  unfolding lastDayOfMonth_def by (rule new_Date_time)

lemma Date_eqI:
  assumes "Day s = Day t" "TimeWithinDay s = TimeWithinDay t"
  shows "s = t"
proof -
  have "s = MakeDate (Day s) (TimeWithinDay s)" by (rule MakeDate_Day[symmetric])
  also have "\<dots> = MakeDate (Day t) (TimeWithinDay t)" unfolding assms ..
  also have "\<dots> = t" by (rule MakeDate_Day)
  finally show ?thesis .
qed


text \<open>
  \<open>getCalendarGrid\<close> hands its year to the constructor of \<open>Date\<close>, which reads a
  year from 0 to 99 as 1900 + year. For every year and every month from 0 to 11, the 42
  cells include the first and the last day of that month of the year \<open>fullYear year\<close>:
  a cell that is day 1 of the month, and a cell that is day \<open>DaysInMonth\<close> of the
  month, the day before a day 1 (the day that \<open>getDaysInMonth\<close> takes for the last
  of the month). For a year that is not one of 0..99 this is the month asked for.
\<close>

lemma getCalendarGrid_covers_month:
  assumes "0 \<le> month" "month \<le> 11"
  shows "\<exists>first \<in> set (concat (getCalendarGrid year month)).
           \<exists>last \<in> set (concat (getCalendarGrid year month)).
             getFullYear first = fullYear year \<and> getMonth first = month \<and> getDate first = 1
           \<and> getFullYear last = fullYear year \<and> getMonth last = month
           \<and> getDate last = DaysInMonth (fullYear year) month
           \<and> getDate (last + msPerDay) = 1
           \<and> first = new_Date year month 1
           \<and> last = lastDayOfMonth year month"
proof -
  define Y where "Y = fullYear year"
  define n where "n = DaysInMonth Y month"
  define first where "first = new_Date year month 1"
  define last where "last = first + (n - 1) * msPerDay"
  have n: "28 \<le> n" "n \<le> 31" unfolding n_def by (rule DaysInMonth_bounds)+
  have w: "0 \<le> getDay first" "getDay first \<le> 6" by (rule getDay_range)+
  have dfirst: "Day first = days_from_civil Y month 1"
    unfolding first_def new_Date_Day Y_def using assms by (rule MakeDay_civil)
  have dlast: "Day last = days_from_civil Y month n"
    unfolding last_def Day_shift dfirst using days_from_civil_add[of Y month 1 "n - 1"] by simp
  have dnext: "Day (last + msPerDay) =
      (if month < 11 then days_from_civil Y (month + 1) 1 else days_from_civil (Y + 1) 0 1)"
    using Day_shift[of last 1] next_day[OF assms, of Y] unfolding dlast n_def by simp
  have "first + 0 * msPerDay \<in> set (concat (getCalendarGrid year month))"
    unfolding first_def using w unfolding first_def by (intro grid_member) simp_all
  then have 1: "first \<in> set (concat (getCalendarGrid year month))" by simp
  have 2: "last \<in> set (concat (getCalendarGrid year month))"
    unfolding last_def first_def using w n unfolding first_def by (intro grid_member) simp_all
  have 3: "getFullYear first = Y" "getMonth first = month" "getDate first = 1"
    using components_of_day[OF assms _ _ dfirst] n unfolding n_def by simp_all
  have 4: "getFullYear last = Y" "getMonth last = month" "getDate last = n"
    using components_of_day[OF assms _ _ dlast] n unfolding n_def by simp_all
  have 5: "getDate (last + msPerDay) = 1"
  proof (cases "month < 11")
    case True
    have "28 \<le> DaysInMonth Y (month + 1)" by (rule DaysInMonth_bounds)
    then show ?thesis
      using components_of_day(3)[of "month + 1" 1 Y "last + msPerDay"] dnext True assms by simp
  next
    case False
    have "28 \<le> DaysInMonth (Y + 1) 0" by (rule DaysInMonth_bounds)
    then show ?thesis
      using components_of_day(3)[of 0 1 "Y + 1" "last + msPerDay"] dnext False by simp
  qed
  have "TimeWithinDay last = 0"
  proof -
    have "last = MakeDate (Day first + (n - 1)) 0"
      unfolding last_def using MakeDate_Day[of first] new_Date_time[of year month 1]
      unfolding first_def MakeDate_def by (simp add: algebra_simps)
    then show ?thesis by (simp add: Day_MakeDate msPerDay_def)
  qed
  then have t: "TimeWithinDay last = TimeWithinDay (lastDayOfMonth year month)"
    unfolding lastDayOfMonth_time .
  have d: "Day last = Day (lastDayOfMonth year month)"
    unfolding dlast lastDayOfMonth_Day[OF assms] Y_def n_def ..
  have 6: "last = lastDayOfMonth year month"
    using d t by (rule Date_eqI)
  have 7: "first = new_Date year month 1" by (rule first_def)
  show ?thesis
    by (rule bexI[OF _ 1], rule bexI[OF _ 2]) (use 3 4 5 6 7 in \<open>simp only: Y_def n_def simp_thms\<close>)
qed

lemma getCalendarGrid_covers_February_2024:
  "\<exists>first \<in> set (concat (getCalendarGrid 2024 1)).
     \<exists>last \<in> set (concat (getCalendarGrid 2024 1)).
       getFullYear first = 2024 \<and> getMonth first = 1 \<and> getDate first = 1
     \<and> getFullYear last = 2024 \<and> getMonth last = 1 \<and> getDate last = 29
     \<and> getDate (last + msPerDay) = 1"
  using getCalendarGrid_covers_month[of 1 2024]
  by (simp add: fullYear_def DaysInMonth_def isLeapYear_def) blast

text \<open>
  C3. The 42 cells include the first and the last day of the month asked for. The code
  misses the years 0 to 99: the grid of January of the year 50 is the grid of January
  1950. All of its 42 cells are days of 1950, and 1 January of the year 50 is not among
  them.
\<close>

theorem getCalendarGrid_year_50:
  "map getFullYear (concat (getCalendarGrid 50 0)) = replicate 42 1950
   \<and> MakeDate (days_from_civil 50 0 1) 0 \<notin> set (concat (getCalendarGrid 50 0))"
  by code_simp

section \<open>The events of a date\<close>

lemma insert_sorted_key:
  fixes f :: "'a \<Rightarrow> int"
  shows "insert_sorted (\<lambda>a b. f a - f b) x ys = insort_key f x ys"
  by (induction ys) simp_all

lemma array_sort_key:
  fixes f :: "'a \<Rightarrow> int"
  shows "array_sort (\<lambda>a b. f a - f b) xs = sort_key f xs"
  unfolding array_sort_def sort_key_def by (induction xs) (simp_all add: insert_sorted_key)

lemma array_sort_byStartDate: "array_sort byStartDate xs = sort_key startDate xs"
proof -
  have eq: "byStartDate = (\<lambda>a b. startDate a - startDate b)"
    unfolding byStartDate_def getTime_def ..
  show ?thesis unfolding eq by (rule array_sort_key)
qed

lemma startOfDay_constructor:
  assumes "fullYearDate t"
  shows "new_Date (getFullYear t) (getMonth t) (getDate t) = startOfDay t"
proof -
  have "fullYear (getFullYear t) = getFullYear t"
    using assms unfolding fullYearDate_def fullYear_def by auto
  then show ?thesis
    unfolding new_Date_def startOfDay_def
    unfolding getFullYear_def getMonth_def getDate_def by (simp add: MakeDay_own)
qed

lemma onTargetDate_spansDay:
  assumes "fullYearDate date" "fullYearDate (startDate event)" "fullYearDate (endDate event)"
  shows "onTargetDate date event = spansDay event date"
  unfolding onTargetDate_def spansDay_def Let_def
  using assms by (auto simp: startOfDay_constructor)

lemma startOfDay_le: "(startOfDay s \<le> startOfDay t) = (Day s \<le> Day t)"
  unfolding startOfDay_def MakeDate_def by (simp add: msPerDay_def)

lemma startOfDay_bounds: "startOfDay t \<le> t" "t < startOfDay t + msPerDay"
  unfolding startOfDay_def MakeDate_def using divmod_bounds[of msPerDay t]
  by (simp_all add: Day_def msPerDay_def mult.commute)

lemma setHours0_eq: "setHours0 t = t - t mod msPerDay"
  unfolding setHours0_def MakeDate_def Day_def by (simp add: minus_mod_eq_div_mult)

text \<open>
  A date is of a full year when its year is not one of 0..99. For a date and events of
  full years, each of the three queries returns the events that span the day of the
  date, whole days compared and both ends included, in the order of their start dates.
\<close>

lemma Dashboard_getEventsForDate_full_years:
  assumes "fullYearDate date"
    "\<forall>event \<in> set events. fullYearDate (startDate event) \<and> fullYearDate (endDate event)"
  shows "Dashboard_getEventsForDate events date =
           sort_key startDate (filter (\<lambda>event. spansDay event date) events)"
proof -
  have "filter (onTargetDate date) events = filter (\<lambda>event. spansDay event date) events"
    using assms by (intro filter_cong) (simp_all add: onTargetDate_spansDay)
  then show ?thesis unfolding Dashboard_getEventsForDate_def array_sort_byStartDate by simp
qed

lemma EventStorage_getEventsForDate_full_years:
  assumes "fullYearDate date"
    "\<forall>event \<in> set stored. fullYearDate (startDate event) \<and> fullYearDate (endDate event)"
  shows "EventStorage_getEventsForDate stored date =
           sort_key startDate (filter (\<lambda>event. spansDay event date) stored)"
proof -
  have "filter (onTargetDate date) stored = filter (\<lambda>event. spansDay event date) stored"
    using assms by (intro filter_cong) (simp_all add: onTargetDate_spansDay)
  then show ?thesis
    unfolding EventStorage_getEventsForDate_def loadAllEvents_def Let_def array_sort_byStartDate
    by (simp add: filter_sort)
qed

lemma Calendar_getEventsForDate_full_years:
  assumes "fullYearDate date"
    "\<forall>event \<in> set stored. fullYearDate (startDate event) \<and> fullYearDate (endDate event)"
  shows "Calendar_getEventsForDate (Calendar_loadEvents (Some stored)) date =
           sort_key startDate (filter (\<lambda>event. spansDay event date) stored)"
  using EventStorage_getEventsForDate_full_years[OF assms]
  unfolding Calendar_getEventsForDate_def Calendar_loadEvents_def EventStorage_getEventsForDate_def
  by simp

lemma sorted_events:
  "sorted (map startDate (sort_key startDate xs))"
  "mset (sort_key startDate xs) = mset xs"
  by simp_all


text \<open>
  C1. The three queries return the events whose days, from the day of the start to the
  day of the end, include the day of the date. The code misses dates of the years 0 to
  99: it finds the start of a day by building a new date from year, month and day, and
  the constructor reads the year 50 as 1950 (\<open>updateStats\<close> of the same class uses
  \<open>setHours(0, 0, 0, 0)\<close>, which has no such rule). An event of 1 March of the year
  50, from 10:00 to 11:00, is returned by all three queries for 1 March 1950, a day
  that it does not span.
\<close>

theorem getEventsForDate_year_50:
  "let event = \<lparr> event_id = str ''1'', title = str ''Opening'', description = [],
                   startDate = MakeDate (days_from_civil 50 2 1) 36000000,
                   endDate = MakeDate (days_from_civil 50 2 1) 39600000,
                   location = None, category = str ''other'', priority = str ''low'',
                   attendees = None, createdAt = 0, updatedAt = 0 \<rparr>;
       date = MakeDate (days_from_civil 1950 2 1) 0
   in Dashboard_getEventsForDate [event] date = [event]
      \<and> EventStorage_getEventsForDate [event] date = [event]
      \<and> Calendar_getEventsForDate (Calendar_loadEvents (Some [event])) date = [event]
      \<and> \<not> spansDay event date
      \<and> getFullYear (startDate event) = 50 \<and> getFullYear (endDate event) = 50
      \<and> getFullYear date = 1950"
  by code_simp


section \<open>The dashboard statistics\<close>

text \<open>
  C6. The four numbers of \<open>updateStats\<close>, each counted over the whole list: all
  events; the events that the query for the date \<open>now\<close> returns; the events that
  start after the start of today (today at time 0, \<open>now\<close> less its time within the
  day); the events of priority \<open>urgent\<close> that start at \<open>now\<close> or later.
\<close>

theorem updateStats_counts:
  "totalEvents (updateStats events now) = length events
   \<and> todayEvents (updateStats events now) = length (Dashboard_getEventsForDate events now)
   \<and> todayEvents (updateStats events now) = length (filter (onTargetDate now) events)
   \<and> upcomingEvents (updateStats events now) =
       length (filter (\<lambda>event. startOfDay now < startDate event) events)
   \<and> urgentEvents (updateStats events now) =
       length (filter (\<lambda>event. priority event = str ''urgent'' \<and> now \<le> startDate event) events)
   \<and> startOfDay now = now - now mod msPerDay"
proof -
  have "length (Dashboard_getEventsForDate events now) = length (filter (onTargetDate now) events)"
    unfolding Dashboard_getEventsForDate_def array_sort_byStartDate by simp
  then show ?thesis
    unfolding updateStats_def Let_def using setHours0_eq[of now]
    by (simp add: startOfDay_def setHours0_def)
qed

section \<open>Merging configurations\<close>

lemma has_prop_replace_prop: "has_prop k' (replace_prop k v ps) = has_prop k' ps"
  by (induction ps) (auto split: if_splits)

lemma has_prop_insert_index:
  "has_prop k' (insert_index n (k, v) ps) = (k' = k \<or> has_prop k' ps)"
  by (induction ps) (auto split: option.splits if_splits)

lemma has_prop_append: "has_prop k (ps @ qs) = (has_prop k ps \<or> has_prop k qs)"
  by (induction ps) auto

lemma has_prop_set_prop: "has_prop k' (set_prop k v ps) = (k' = k \<or> has_prop k' ps)"
  unfolding set_prop_def
  by (auto simp: has_prop_replace_prop has_prop_insert_index has_prop_append split: option.splits)

lemma replace_prop_twice: "replace_prop k v (replace_prop k w ps) = replace_prop k v ps"
  by (induction ps) auto

lemma replace_prop_commute:
  "k \<noteq> k' \<Longrightarrow> replace_prop k v (replace_prop k' v' ps) = replace_prop k' v' (replace_prop k v ps)"
  by (induction ps) auto

lemma replace_prop_inserted:
  "\<not> has_prop k ps \<Longrightarrow> replace_prop k v (insert_index n (k, w) ps) = insert_index n (k, v) ps"
  by (induction ps) (auto split: option.splits)

lemma replace_prop_appended:
  "\<not> has_prop k ps \<Longrightarrow> replace_prop k v (ps @ [(k, w)]) = ps @ [(k, v)]"
  by (induction ps) auto

lemma replace_prop_insert_index:
  "k \<noteq> k' \<Longrightarrow>
     replace_prop k' v' (insert_index n (k, v) ps) = insert_index n (k, v) (replace_prop k' v' ps)"
  by (induction ps) (auto split: option.splits)

lemma replace_prop_append:
  "k \<noteq> k' \<Longrightarrow> replace_prop k' v' (ps @ [(k, v)]) = replace_prop k' v' ps @ [(k, v)]"
  by (induction ps) auto

lemma set_prop_twice: "set_prop k v (set_prop k w ps) = set_prop k v ps"
proof (cases "has_prop k ps")
  case True
  then show ?thesis
    unfolding set_prop_def by (simp add: has_prop_replace_prop replace_prop_twice)
next
  case False
  then show ?thesis
    unfolding set_prop_def
    by (simp add: has_prop_insert_index has_prop_append replace_prop_inserted
        replace_prop_appended split: option.splits)
qed

lemma set_prop_commute:
  assumes "has_prop k' ps" "k \<noteq> k'"
  shows "set_prop k v (set_prop k' v' ps) = set_prop k' v' (set_prop k v ps)"
proof -
  have 1: "set_prop k' v' ps = replace_prop k' v' ps"
    unfolding set_prop_def using assms(1) by simp
  have 2: "set_prop k' v' (set_prop k v ps) = replace_prop k' v' (set_prop k v ps)"
    unfolding set_prop_def[of k' v'] using assms(1) by (simp add: has_prop_set_prop)
  show ?thesis
    unfolding 1 2 unfolding set_prop_def using assms(2)
    by (simp add: has_prop_replace_prop replace_prop_commute replace_prop_insert_index
        replace_prop_append split: option.splits)
qed

lemma spread_snoc: "spread a (b @ [(k, v)]) = set_prop k v (spread a b)"
  unfolding spread_def by simp

lemma spread_Nil: "spread a [] = a"
  unfolding spread_def by simp

lemma has_prop_spread: "has_prop k (spread a b) = (has_prop k a \<or> has_prop k b)"
proof (induction b rule: rev_induct)
  case Nil
  show ?case by (simp add: spread_Nil)
next
  case (snoc p b)
  obtain k' v where p: "p = (k', v)" by (cases p)
  show ?case unfolding p spread_snoc has_prop_set_prop snoc.IH has_prop_append by auto
qed

lemma set_prop_over_spread:
  assumes "\<And>k'. has_prop k' b \<Longrightarrow> has_prop k' a"
  shows "set_prop k v (spread (set_prop k w a) b) = set_prop k v (spread a b)"
  using assms
proof (induction b rule: rev_induct)
  case Nil
  then show ?case by (simp add: spread_Nil set_prop_twice)
next
  case (snoc p b)
  obtain k' v' where p: "p = (k', v')" by (cases p)
  have sub: "\<And>k'. has_prop k' b \<Longrightarrow> has_prop k' a" and k': "has_prop k' a"
    using snoc.prems unfolding p by (simp_all add: has_prop_append)
  note IH = snoc.IH[OF sub]
  show ?case
  proof (cases "k = k'")
    case True
    have "set_prop k v (set_prop k v' (spread (set_prop k w a) b)) =
        set_prop k v (spread (set_prop k w a) b)" by (rule set_prop_twice)
    also have "\<dots> = set_prop k v (spread a b)" by (rule IH)
    also have "\<dots> = set_prop k v (set_prop k v' (spread a b))" by (rule set_prop_twice[symmetric])
    finally show ?thesis unfolding p spread_snoc True[symmetric] .
  next
    case False
    have 1: "has_prop k' (spread (set_prop k w a) b)"
      using k' by (simp add: has_prop_spread has_prop_set_prop)
    have 2: "has_prop k' (spread a b)" using k' by (simp add: has_prop_spread)
    have "set_prop k v (set_prop k' v' (spread (set_prop k w a) b)) =
        set_prop k' v' (set_prop k v (spread (set_prop k w a) b))"
      by (rule set_prop_commute[OF 1 False])
    also have "\<dots> = set_prop k' v' (set_prop k v (spread a b))" by (simp only: IH)
    also have "\<dots> = set_prop k v (set_prop k' v' (spread a b))"
      by (rule set_prop_commute[OF 2 False, symmetric])
    finally show ?thesis unfolding p spread_snoc .
  qed
qed


text \<open>
  C7. The merge \<open>{ ...a, ...b }\<close> of \<open>updateConfig\<close> (and of loading over the
  defaults) is idempotent: merging the same override \<open>b\<close> again changes nothing, for
  every object \<open>a\<close> and every \<open>b\<close>.
\<close>

theorem spread_idempotent: "spread (spread a b) b = spread a b"
proof (induction b arbitrary: a rule: rev_induct)
  case Nil
  show ?case by (simp add: spread_Nil)
next
  case (snoc p b)
  obtain k v where p: "p = (k, v)" by (cases p)
  have "spread (spread a (b @ [p])) (b @ [p]) = set_prop k v (spread (set_prop k v (spread a b)) b)"
    unfolding p spread_snoc ..
  also have "\<dots> = set_prop k v (spread (spread a b) b)"
    by (rule set_prop_over_spread) (simp add: has_prop_spread)
  also have "\<dots> = set_prop k v (spread a b)" unfolding snoc.IH ..
  finally show ?case unfolding p spread_snoc .
qed

section \<open>The categories and priorities of a configuration\<close>

lemma insert_sorted_set: "set (insert_sorted compare x xs) = insert x (set xs)"
  by (induction xs) auto

lemma insert_sorted_mset: "mset (insert_sorted compare x xs) = add_mset x (mset xs)"
  by (induction xs) auto

lemma array_sort_mset: "mset (array_sort compare xs) = mset xs"
  unfolding array_sort_def by (induction xs) (simp_all add: insert_sorted_mset)

lemma insert_sorted_sorted:
  assumes total: "\<And>y. y \<in> set xs \<Longrightarrow> compare x y \<le> 0 \<or> compare y x \<le> 0"
    and trans: "\<And>y z. y \<in> set xs \<Longrightarrow> z \<in> set xs \<Longrightarrow> compare x y \<le> 0 \<Longrightarrow> compare y z \<le> 0
      \<Longrightarrow> compare x z \<le> 0"
    and sorted: "sorted_wrt (\<lambda>a b. compare a b \<le> 0) xs"
  shows "sorted_wrt (\<lambda>a b. compare a b \<le> 0) (insert_sorted compare x xs)"
  using assms
proof (induction xs)
  case Nil
  show ?case by simp
next
  case (Cons y ys)
  show ?case
  proof (cases "compare x y \<le> 0")
    case True
    have "compare x z \<le> 0" if "z \<in> set ys" for z
      using Cons.prems(2)[of y z] Cons.prems(3) True that by simp
    then show ?thesis using True Cons.prems(3) by simp
  next
    case False
    then have yx: "compare y x \<le> 0" using Cons.prems(1)[of y] by simp
    have "sorted_wrt (\<lambda>a b. compare a b \<le> 0) (insert_sorted compare x ys)"
    proof (rule Cons.IH)
      show "compare x u \<le> 0 \<or> compare u x \<le> 0" if "u \<in> set ys" for u
        using Cons.prems(1)[of u] that by simp
      show "compare x w \<le> 0"
        if "u \<in> set ys" "w \<in> set ys" "compare x u \<le> 0" "compare u w \<le> 0" for u w
        using Cons.prems(2)[of u w] that by simp
      show "sorted_wrt (\<lambda>a b. compare a b \<le> 0) ys" using Cons.prems(3) by simp
    qed
    then show ?thesis using False yx Cons.prems(3) by (simp add: insert_sorted_set)
  qed
qed

lemma byLevelDescending_numbers:
  assumes "level a \<noteq> NaN" "level b \<noteq> NaN"
  shows "(byLevelDescending a b \<le> 0) = number_geq (level a) (level b)"
  using assms unfolding byLevelDescending_def number_geq_def
  by (cases "level a"; cases "level b") auto

lemma number_geq_total: "x \<noteq> NaN \<Longrightarrow> y \<noteq> NaN \<Longrightarrow> number_geq x y \<or> number_geq y x"
  unfolding number_geq_def by (cases x; cases y) auto

lemma number_geq_trans: "number_geq x y \<Longrightarrow> number_geq y z \<Longrightarrow> number_geq x z"
  unfolding number_geq_def by (cases x; cases y; cases z) auto

text \<open>
  When no custom priority has the level NaN, the list of priorities is the three
  built-in ones, high, medium and low, and then the custom priorities sorted by
  level, highest first: a rearrangement of the custom ones alone.
\<close>

lemma getAllPriorities_numbers:
  assumes "\<And>p. p \<in> set (case customPriorities cfg of None \<Rightarrow> [] | Some ps \<Rightarrow> ps) \<Longrightarrow> level p \<noteq> NaN"
  shows "\<exists>sorted_custom.
      fst (getAllPriorities cfg) = map BuiltIn defaultPriorities @ map Own sorted_custom
    \<and> map opt_id defaultPriorities = [str ''high'', str ''medium'', str ''low'']
    \<and> mset sorted_custom = mset (case customPriorities cfg of None \<Rightarrow> [] | Some ps \<Rightarrow> ps)
    \<and> sorted_wrt (\<lambda>a b. number_geq (level a) (level b)) sorted_custom"
proof -
  define custom where "custom = (case customPriorities cfg of None \<Rightarrow> [] | Some ps \<Rightarrow> ps)"
  have numbers: "\<And>p. p \<in> set custom \<Longrightarrow> level p \<noteq> NaN"
    using assms unfolding custom_def by simp
  have sorted: "sorted_wrt (\<lambda>a b. byLevelDescending a b \<le> 0) (foldr (insert_sorted byLevelDescending) ps [])"
    if "set ps \<subseteq> set custom" for ps
    using that
  proof (induction ps)
    case Nil
    show ?case by simp
  next
    case (Cons p ps)
    define rest where "rest = foldr (insert_sorted byLevelDescending) ps []"
    have rest: "set rest \<subseteq> set custom"
      using Cons.prems array_sort_mset[of byLevelDescending ps, THEN arg_cong, of set_mset]
      unfolding rest_def array_sort_def by simp
    have p: "level p \<noteq> NaN" using Cons.prems numbers by simp
    have "sorted_wrt (\<lambda>a b. byLevelDescending a b \<le> 0) (insert_sorted byLevelDescending p rest)"
    proof (rule insert_sorted_sorted)
      fix y assume "y \<in> set rest"
      then have "level y \<noteq> NaN" using rest numbers by auto
      then show "byLevelDescending p y \<le> 0 \<or> byLevelDescending y p \<le> 0"
        using p number_geq_total[of "level p" "level y"] by (simp add: byLevelDescending_numbers)
    next
      fix y z assume "y \<in> set rest" "z \<in> set rest"
        and "byLevelDescending p y \<le> 0" "byLevelDescending y z \<le> 0"
      moreover from this have "level y \<noteq> NaN" "level z \<noteq> NaN" using rest numbers by auto
      ultimately show "byLevelDescending p z \<le> 0"
        using p number_geq_trans[of "level p" "level y" "level z"]
        by (simp add: byLevelDescending_numbers)
    next
      show "sorted_wrt (\<lambda>a b. byLevelDescending a b \<le> 0) rest"
        unfolding rest_def using Cons by simp
    qed
    then show ?case unfolding rest_def by simp
  qed
  define sorted_custom where "sorted_custom = array_sort byLevelDescending custom"
  have 1: "fst (getAllPriorities cfg) = map BuiltIn defaultPriorities @ map Own sorted_custom"
    unfolding getAllPriorities_def Let_def sorted_custom_def custom_def by simp
  have 2: "mset sorted_custom = mset custom"
    unfolding sorted_custom_def by (rule array_sort_mset)
  have members: "\<And>p. p \<in> set sorted_custom \<Longrightarrow> level p \<noteq> NaN"
    using numbers 2[THEN arg_cong, of set_mset] by simp
  have "sorted_wrt (\<lambda>a b. byLevelDescending a b \<le> 0) sorted_custom"
    unfolding sorted_custom_def array_sort_def using sorted[of custom] by simp
  then have 3: "sorted_wrt (\<lambda>a b. number_geq (level a) (level b)) sorted_custom"
    by (rule sorted_wrt_mono_rel[rotated]) (simp add: byLevelDescending_numbers members)
  show ?thesis
    using 1 2 3 unfolding custom_def by (auto simp: defaultPriorities_def)
qed

text \<open>The custom levels 3, 9, 5 come out as 9, 5, 3, after the built-in three.\<close>

lemma getAllPriorities_example:
  "map (\<lambda>entry. case entry of BuiltIn v \<Rightarrow> opt_id v | Own p \<Rightarrow> pri_id p)
     (fst (getAllPriorities (DEFAULT_CONFIG\<lparr> customPriorities := Some
        [\<lparr> pri_id = str ''c'', pri_name = str ''C'', pri_color = str ''#000000'',
            level = Finite 3, pri_isActive = True \<rparr>,
         \<lparr> pri_id = str ''a'', pri_name = str ''A'', pri_color = str ''#000000'',
            level = Finite 9, pri_isActive = True \<rparr>,
         \<lparr> pri_id = str ''b'', pri_name = str ''B'', pri_color = str ''#000000'',
            level = Finite 5, pri_isActive = True \<rparr>] \<rparr>)))
   = [str ''high'', str ''medium'', str ''low'', str ''a'', str ''b'', str ''c'']"
  by code_simp

text \<open>
  C5. After the three built-in priorities come the custom ones sorted by level,
  highest first. The code misses the level NaN, which \<open>addPriority\<close> of the
  configuration page stores when the answer for the level does not begin with a digit
  (here \<open>.5\<close>). To a custom priority of level 3 one such priority is added, and
  then one of level 9: \<open>getAllPriorities\<close> returns the three in this order, the
  levels 3, NaN, 9, where 3 comes before 9. The comparison \<open>b.level - a.level\<close> is
  NaN when one level is, and \<open>sort\<close> reads NaN as "equal". \<open>getAllPriorities\<close> of
  the local-storage service reads a level as \<open>level || 5\<close>, NaN as 5, and returns
  the priorities of level 9, NaN and 3 in this order.
\<close>

theorem getAllPriorities_level_NaN:
  "let third = \<lparr> pri_id = str ''c'', pri_name = str ''C'', pri_color = str ''#000000'',
                   level = Finite 3, pri_isActive = True \<rparr>;
       cfg = addPriority (Some (str ''A'')) (Some (str ''9'')) 1700000000002
               (addPriority (Some (str ''X'')) (Some (str ''.5'')) 1700000000001
                  (DEFAULT_CONFIG\<lparr> customPriorities := Some [third] \<rparr>));
       custom = (case customPriorities cfg of None \<Rightarrow> [] | Some ps \<Rightarrow> ps)
   in map level custom = [Finite 3, NaN, Finite 9]
      \<and> map pri_name custom = [str ''C'', str ''X'', str ''A'']
      \<and> fst (getAllPriorities cfg) = map BuiltIn defaultPriorities @ map Own custom
      \<and> \<not> sorted_wrt number_geq (map level custom)
      \<and> map opt_name (getAllPriorities_localStorage cfg)
          = [str ''High'', str ''Medium'', str ''Low'', str ''A'', str ''X'', str ''C'']"
  by code_simp

lemma getAllCategories_all_custom:
  "getAllCategories cfg =
     map BuiltIn defaultCategories @ map Own (case customCategories cfg of None \<Rightarrow> [] | Some cs \<Rightarrow> cs)"
  "map opt_id defaultCategories = [str ''meeting'', str ''personal'', str ''work'', str ''other'']"
  unfolding getAllCategories_def defaultCategories_def by simp_all

lemma getAllCategories_localStorage_active:
  "getAllCategories_localStorage cfg =
     defaultCategories @
     map (\<lambda>cat. \<lparr> opt_id = cat_id cat, opt_name = cat_name cat, opt_color = cat_color cat \<rparr>)
       (filter cat_isActive (case customCategories cfg of None \<Rightarrow> [] | Some cs \<Rightarrow> cs))"
  unfolding getAllCategories_localStorage_def Let_def ..

text \<open>
  C4. The list of categories is the four built-in ones followed by the custom
  categories that are active. \<open>getAllCategories\<close> of the service has no filter: a
  custom category that is not active (the configuration page switches
  \<open>isActive\<close> of a category off) is in its result. \<open>getActiveLocations\<close> of the
  same class filters by \<open>isActive\<close>, and so does \<open>getAllCategories\<close> of the
  local-storage service, which returns the built-in four alone here.
\<close>

theorem getAllCategories_inactive:
  "let gala = \<lparr> cat_id = str ''gala'', cat_name = str ''Gala'', cat_color = str ''#111111'',
                  cat_icon = None, cat_isActive = False \<rparr>;
       cfg = DEFAULT_CONFIG\<lparr> customCategories := Some [gala] \<rparr>
   in getAllCategories cfg = map BuiltIn defaultCategories @ [Own gala]
      \<and> \<not> cat_isActive gala
      \<and> getAllCategories_localStorage cfg = defaultCategories"
  by (simp add: Let_def getAllCategories_def getAllCategories_localStorage_def)

section \<open>Adding a priority\<close>

lemma str_signs: "str ''+'' = [0x2B]" "str ''-'' = [0x2D]" "str ''0x'' = [0x30, 0x78]" "str ''0X'' = [0x30, 0x58]"
  "str ''5'' = [0x35]"
  by (simp_all add: str_def)

lemma is_decimal_digit_unat: "is_decimal_digit c = (48 \<le> unat c \<and> unat c \<le> 57)"
  unfolding is_decimal_digit_def by (simp add: word_le_nat_alt)

lemma isDigit_decimal: "isDigit 10 c = is_decimal_digit c"
  unfolding isDigit_def digit_value_def is_decimal_digit_unat Let_def by auto

lemma digit_value_decimal:
  assumes "is_decimal_digit c"
  shows "int (the (digit_value c)) = uint c - 48"
proof -
  have b: "48 \<le> unat c" "unat c \<le> 57"
    using assms unfolding is_decimal_digit_unat by simp_all
  then have "digit_value c = Some (unat c - 48)"
    unfolding digit_value_def Let_def by simp
  moreover have "int (unat c - 48) = int (unat c) - 48" using b(1) by linarith
  moreover have "int (unat c) = uint c" by (rule uint_nat[symmetric])
  ultimately show ?thesis by simp
qed

lemma decimal_digit_not_space: "is_decimal_digit c \<Longrightarrow> \<not> isWhiteSpace c"
  unfolding is_decimal_digit_unat isWhiteSpace_def
  by (auto simp: word_le_nat_alt)

lemma number_of_decimal_digits:
  assumes "list_all is_decimal_digit ds"
  shows "number_of_digits 10 ds = decimal_value ds"
proof -
  have "foldl (\<lambda>acc c. acc * int 10 + int (the (digit_value c))) a ds
      = foldl (\<lambda>acc c. acc * 10 + (uint c - 48)) a ds" for a
    using assms by (induction ds arbitrary: a) (simp_all add: digit_value_decimal)
  then show ?thesis unfolding number_of_digits_def decimal_value_def by simp
qed

lemma dropWhile_prefix:
  assumes "list_all P xs" "ys = [] \<or> \<not> P (hd ys)"
  shows "dropWhile P (xs @ ys) = ys"
  using assms by (induction xs) (auto simp: dropWhile_eq_self_iff)

lemma takeWhile_prefix:
  assumes "list_all P xs" "ys = [] \<or> \<not> P (hd ys)"
  shows "takeWhile P (xs @ ys) = xs"
  using assms by (induction xs) (auto simp: takeWhile_eq_Nil_iff)

lemma parseInt_decimal:
  assumes space: "list_all isWhiteSpace space"
    and sign: "sign = [] \<or> sign = str ''+'' \<or> sign = str ''-''"
    and digits: "digits \<noteq> []" "list_all is_decimal_digit digits"
    and rest: "rest = [] \<or> \<not> is_decimal_digit (hd rest)"
    and decimal: "take 2 (digits @ rest) \<noteq> str ''0x''" "take 2 (digits @ rest) \<noteq> str ''0X''"
  shows "parseInt (space @ sign @ digits @ rest) =
     Number_value (if sign = str ''-'' then - decimal_value digits else decimal_value digits)"
proof -
  obtain d ds where d: "digits = d # ds" using digits(1) by (cases digits) auto
  have dd: "is_decimal_digit d" using digits(2) unfolding d by simp
  have nospace: "\<not> isWhiteSpace d" "\<not> isWhiteSpace 0x2B" "\<not> isWhiteSpace 0x2D"
    using decimal_digit_not_space[OF dd] by (simp_all add: isWhiteSpace_def)
  have nosign: "d \<noteq> 0x2B" "d \<noteq> 0x2D"
    using dd unfolding is_decimal_digit_unat by auto
  have 1: "dropWhile isWhiteSpace (space @ sign @ digits @ rest) = sign @ digits @ rest"
    using sign nospace by (intro dropWhile_prefix[OF space]) (auto simp: str_signs d)
  have 2: "(case digits @ rest of
              c # x # rest' \<Rightarrow> if c = 0x30 \<and> (x = 0x78 \<or> x = 0x58) then (16::nat, rest') else (10, digits @ rest)
            | _ \<Rightarrow> (10, digits @ rest)) = (10, digits @ rest)"
    using decimal unfolding d str_signs by (cases "ds @ rest") auto
  have 3: "takeWhile (isDigit 10) (digits @ rest) = digits"
    using digits(2) rest by (intro takeWhile_prefix) (simp_all add: isDigit_decimal[abs_def])
  have 4: "number_of_digits 10 digits = decimal_value digits"
    by (rule number_of_decimal_digits[OF digits(2)])
  have 0: "(case sign @ digits @ rest of
              c # rest' \<Rightarrow> if c = 0x2D then (- 1 :: int, rest')
                         else if c = 0x2B then (1, rest') else (1, sign @ digits @ rest)
            | [] \<Rightarrow> (1, sign @ digits @ rest))
          = (if sign = str ''-'' then - 1 else 1, digits @ rest)"
    using sign nosign by (auto simp: str_signs d)
  show ?thesis
    unfolding parseInt_def 1 Let_def 0 prod.case 2 3 4 using digits(1) by simp
qed

lemma parseInt_examples:
  "parseInt (str ''7'') = Finite 7"
  "parseInt (str '' -3'') = Finite (- 3)"
  "parseInt (str ''+42'') = Finite 42"
  "parseInt (str ''7.9'') = Finite 7"
  "parseInt (str ''1e3'') = Finite 1"
  "parseInt (str ''12abc'') = Finite 12"
  "parseInt (str ''0x1F'') = Finite 31"
  "parseInt (str ''0x'') = NaN"
  "parseInt (str ''.5'') = NaN"
  "parseInt (str ''Infinity'') = NaN"
  "parseInt (str ''abc'') = NaN"
  "parseInt [] = NaN"
  "parseInt [0x00A0, 0x37] = Finite 7"
  "parseInt [0x2003, 0xFEFF, 0x37] = Finite 7"
  "parseInt (str ''9007199254740993'') = Finite 9007199254740992"
  by code_simp+

text \<open>
  \<open>Math.max(1, Math.min(10, x))\<close> of the number that stands for an integer is the
  integer clamped: below \<open>2\<close> to the power 53 the number is the integer, and beyond
  that rounding leaves it far above 10 or far below 1.
\<close>

lemma double_exponent_small: "n < 9007199254740992 \<Longrightarrow> double_exponent n = 0"
  by (simp add: double_exponent.simps)

lemma Number_value_exact:
  assumes "\<bar>x\<bar> < 9007199254740992"
  shows "Number_value x = Finite (of_int x)"
proof -
  have "\<not> (2::int) ^ 1024 \<le> \<bar>x\<bar>" using assms by simp
  then show ?thesis
    unfolding Number_value_def Let_def double_exponent_small[OF assms]
    by (simp add: mult_sgn_abs)
qed

lemma double_exponent_mantissa:
  "4503599627370496 \<le> n \<Longrightarrow> 4503599627370496 \<le> n div 2 ^ double_exponent n"
proof (induction n rule: double_exponent.induct)
  case (1 n)
  show ?case
  proof (cases "n < 9007199254740992")
    case True
    then show ?thesis using 1 by (simp add: double_exponent_small)
  next
    case False
    then have e: "double_exponent n = Suc (double_exponent (n div 2))"
      by (subst double_exponent.simps) simp
    have "4503599627370496 \<le> n div 2" using False by linarith
    then have "4503599627370496 \<le> n div 2 div 2 ^ double_exponent (n div 2)"
      using 1 False by simp
    then show ?thesis unfolding e by (simp add: zdiv_zmult2_eq)
  qed
qed

lemma rounded_large:
  fixes n :: int
  assumes "9007199254740992 \<le> n"
  shows "4503599627370496 \<le>
     (if 2 ^ double_exponent n < 2 * (n mod 2 ^ double_exponent n)
         \<or> (2 * (n mod 2 ^ double_exponent n) = 2 ^ double_exponent n \<and> odd (n div 2 ^ double_exponent n))
      then n div 2 ^ double_exponent n + 1 else n div 2 ^ double_exponent n) * 2 ^ double_exponent n"
proof -
  define q :: int where "q = 2 ^ double_exponent n"
  define m where "m = n div q"
  have q: "1 \<le> q" unfolding q_def by simp
  have m: "4503599627370496 \<le> m"
    unfolding m_def q_def using assms by (intro double_exponent_mantissa) simp
  have "4503599627370496 \<le> m * 1" using m by simp
  also have "\<dots> \<le> m * q" using q m by (intro mult_left_mono) simp_all
  finally have 1: "4503599627370496 \<le> m * q" .
  have "m * q \<le> (m + 1) * q" using q by (simp add: distrib_right)
  then have 2: "4503599627370496 \<le> (m + 1) * q" using 1 by simp
  show ?thesis
    unfolding q_def[symmetric] m_def[symmetric] using 1 2 by simp
qed

lemma Number_value_large:
  assumes "9007199254740992 \<le> x"
  shows "Number_value x = Infinity \<or> (\<exists>r. Number_value x = Finite r \<and> 4503599627370496 \<le> r)"
proof -
  define k where "k =
     (if 2 ^ double_exponent x < 2 * (x mod 2 ^ double_exponent x)
         \<or> (2 * (x mod 2 ^ double_exponent x) = 2 ^ double_exponent x \<and> odd (x div 2 ^ double_exponent x))
      then x div 2 ^ double_exponent x + 1 else x div 2 ^ double_exponent x) * 2 ^ double_exponent x"
  have x: "\<bar>x\<bar> = x" "sgn x = 1" "\<not> x < 0" using assms by simp_all
  have nv: "Number_value x = (if 2 ^ 1024 \<le> k then Infinity else Finite (of_int k))"
    unfolding Number_value_def Let_def x k_def[symmetric] using x(3) by simp
  have "4503599627370496 \<le> k" unfolding k_def by (rule rounded_large[OF assms])
  then have "(4503599627370496 :: rat) \<le> of_int k"
    using of_int_le_iff[of 4503599627370496 k, where 'a = rat] by simp
  then show ?thesis unfolding nv by simp
qed

lemma Number_value_small:
  assumes "x \<le> - 9007199254740992"
  shows "Number_value x = MinusInfinity \<or> (\<exists>r. Number_value x = Finite r \<and> r \<le> - 4503599627370496)"
proof -
  define n where "n = - x"
  define k where "k =
     (if 2 ^ double_exponent n < 2 * (n mod 2 ^ double_exponent n)
         \<or> (2 * (n mod 2 ^ double_exponent n) = 2 ^ double_exponent n \<and> odd (n div 2 ^ double_exponent n))
      then n div 2 ^ double_exponent n + 1 else n div 2 ^ double_exponent n) * 2 ^ double_exponent n"
  have x: "\<bar>x\<bar> = n" "sgn x = - 1" "x < 0" using assms unfolding n_def by simp_all
  have nv: "Number_value x = (if 2 ^ 1024 \<le> k then MinusInfinity else Finite (of_int (- k)))"
    unfolding Number_value_def Let_def x k_def[symmetric] using x(3) by simp
  have "4503599627370496 \<le> k"
    unfolding k_def using assms by (intro rounded_large) (simp add: n_def)
  then have "of_int (- k) \<le> (- 4503599627370496 :: rat)"
    using of_int_le_iff[of "- k" "- 4503599627370496", where 'a = rat] by simp
  then show ?thesis unfolding nv by simp
qed

lemma clamped_level:
  "Math_max (Finite 1) (Math_min (Finite 10) (Number_value n)) = Finite (of_int (max 1 (min 10 n)))"
proof -
  consider "\<bar>n\<bar> < 9007199254740992" | "9007199254740992 \<le> n" | "n \<le> - 9007199254740992"
    by linarith
  then show ?thesis
  proof cases
    case 1
    show ?thesis
      unfolding Number_value_exact[OF 1] Math_min_def Math_max_def
      by (simp add: max_def min_def)
  next
    case 2
    then show ?thesis
      using Number_value_large[OF 2] unfolding Math_min_def Math_max_def
      by (auto simp: max_def min_def)
  next
    case 3
    then show ?thesis
      using Number_value_small[OF 3] unfolding Math_min_def Math_max_def
      by (auto simp: max_def min_def)
  qed
qed

lemma is_decimal_digit_uint: "is_decimal_digit c = (48 \<le> uint c \<and> uint c \<le> 57)"
  unfolding is_decimal_digit_def by (simp add: word_le_def)

lemma uint_digit_char:
  assumes "0 \<le> d" "d < 10"
  shows "uint (digit_char d) = 48 + d"
proof -
  have "uint (digit_char d) = (48 + d) mod 2 ^ 16"
    unfolding digit_char_def by (subst uint_word_of_int) simp
  then show ?thesis using assms by simp
qed

lemma decimal_value_snoc: "decimal_value (ds @ [c]) = decimal_value ds * 10 + (uint c - 48)"
  unfolding decimal_value_def by simp

lemma decimal_numeral:
  "0 \<le> n \<Longrightarrow> decimal n \<noteq> [] \<and> list_all is_decimal_digit (decimal n) \<and> decimal_value (decimal n) = n"
proof (induction n rule: decimal.induct)
  case (1 n)
  show ?case
  proof (cases "n < 10")
    case True
    then have "decimal n = [digit_char n]" by (subst decimal.simps) simp
    then show ?thesis
      using 1(2) True uint_digit_char[of n]
      by (simp add: is_decimal_digit_uint decimal_value_def)
  next
    case False
    then have d: "decimal n = decimal (n div 10) @ [digit_char (n mod 10)]"
      by (subst decimal.simps) simp
    have IH: "list_all is_decimal_digit (decimal (n div 10))"
      "decimal_value (decimal (n div 10)) = n div 10"
      using 1 False by simp_all
    have u: "uint (digit_char (n mod 10)) = 48 + n mod 10"
      by (rule uint_digit_char) simp_all
    have "n mod 10 \<le> 9" using pos_mod_bound[of 10 n] by simp
    then have last: "is_decimal_digit (digit_char (n mod 10))"
      unfolding is_decimal_digit_uint u by simp
    show ?thesis
      unfolding d using IH u last by (simp add: decimal_value_snoc)
  qed
qed

text \<open>
  For an integer level that is not negative, typed as its decimal numeral, the level
  stored is the integer clamped.
\<close>

lemma addPriority_level_of_numeral:
  assumes "text \<noteq> []" "0 \<le> n"
  shows "\<exists>added.
      addPriority (Some text) (Some (decimal n)) now cfg =
        cfg\<lparr> customPriorities :=
          Some ((case customPriorities cfg of None \<Rightarrow> [] | Some ps \<Rightarrow> ps) @ [added]) \<rparr>
    \<and> level added = Finite (of_int (max 1 (min 10 n)))"
proof -
  have digits: "decimal n \<noteq> []" "list_all is_decimal_digit (decimal n)"
    "decimal_value (decimal n) = n"
    using decimal_numeral[OF assms(2)] by simp_all
  obtain d ds where d: "decimal n = d # ds" using digits(1) by (cases "decimal n") auto
  have not_hex: "take 2 (decimal n @ []) \<noteq> str ''0x''" "take 2 (decimal n @ []) \<noteq> str ''0X''"
    using digits(2) unfolding d str_signs by (cases ds; auto simp: is_decimal_digit_def)+
  have "parseInt ([] @ [] @ decimal n @ []) = Number_value n"
    using parseInt_decimal[of "[]" "[]" "decimal n" "[]"] digits not_hex
    by (simp add: str_signs)
  then have read: "parseInt (orElse (Some (decimal n)) (str ''5'')) = Number_value n"
    using digits(1) unfolding orElse_def by simp
  define added where "added =
    \<lparr> pri_id = str ''priority-'' @ integer_string now, pri_name = text, pri_color = str ''#6b7280'',
      level = Finite (of_int (max 1 (min 10 n))), pri_isActive = True \<rparr>"
  have "addPriority (Some text) (Some (decimal n)) now cfg =
      cfg\<lparr> customPriorities :=
        Some ((case customPriorities cfg of None \<Rightarrow> [] | Some ps \<Rightarrow> ps) @ [added]) \<rparr>"
    unfolding addPriority_def Let_def read clamped_level added_def using assms(1) by simp
  moreover have "level added = Finite (of_int (max 1 (min 10 n)))"
    unfolding added_def by simp
  ultimately show ?thesis by blast
qed

text \<open>
  C10, as amended. When a name is given and the answer for the level (\<open>5\<close> when
  the answer is empty or the dialog is cancelled) begins, after white space and a sign
  if there are any, with a decimal digit, and not with \<open>0x\<close> or \<open>0X\<close>:
  \<open>addPriority\<close> appends one priority to the custom priorities, and its level is
  \<open>max 1 (min 10 n)\<close>, from 1 to 10, where \<open>n\<close> is the integer that the leading
  run of digits writes, with that sign. Whatever follows the digits is not read.
\<close>

theorem addPriority_level_of_integer:
  assumes "name = Some text" "text \<noteq> []"
    and "orElse levelAnswer (str ''5'') = space @ sign @ digits @ rest"
    and "list_all isWhiteSpace space"
    and "sign = [] \<or> sign = str ''+'' \<or> sign = str ''-''"
    and "digits \<noteq> []" "list_all is_decimal_digit digits"
    and "rest = [] \<or> \<not> is_decimal_digit (hd rest)"
    and "take 2 (digits @ rest) \<noteq> str ''0x''" "take 2 (digits @ rest) \<noteq> str ''0X''"
  shows "\<exists>added.
      addPriority name levelAnswer now cfg =
        cfg\<lparr> customPriorities :=
          Some ((case customPriorities cfg of None \<Rightarrow> [] | Some ps \<Rightarrow> ps) @ [added]) \<rparr>
    \<and> pri_name added = text
    \<and> level added = Finite (of_int (max 1 (min 10
          (if sign = str ''-'' then - decimal_value digits else decimal_value digits))))
    \<and> number_geq (level added) (Finite 1) \<and> number_geq (Finite 10) (level added)"
proof -
  define n where "n = (if sign = str ''-'' then - decimal_value digits else decimal_value digits)"
  define added where "added =
    \<lparr> pri_id = str ''priority-'' @ integer_string now, pri_name = text, pri_color = str ''#6b7280'',
      level = Finite (of_int (max 1 (min 10 n))), pri_isActive = True \<rparr>"
  have read: "parseInt (orElse levelAnswer (str ''5'')) = Number_value n"
    unfolding assms(3) n_def by (rule parseInt_decimal[OF assms(4-10)])
  have 1: "addPriority name levelAnswer now cfg =
      cfg\<lparr> customPriorities :=
        Some ((case customPriorities cfg of None \<Rightarrow> [] | Some ps \<Rightarrow> ps) @ [added]) \<rparr>"
    unfolding addPriority_def Let_def read clamped_level added_def using assms(1,2) by simp
  have 2: "pri_name added = text" "level added = Finite (of_int (max 1 (min 10 n)))"
    unfolding added_def by simp_all
  have 3: "number_geq (level added) (Finite 1)" "number_geq (Finite 10) (level added)"
    unfolding 2 number_geq_def by (simp_all add: max_def min_def)
  show ?thesis using 1 2 3 unfolding n_def by blast
qed

theorem addPriority_level_of_integer_witness:
  "\<exists>added.
      addPriority (Some (str ''VIP'')) (Some (str '' 42nd'')) 1700000000000 DEFAULT_CONFIG =
        DEFAULT_CONFIG\<lparr> customPriorities :=
          Some ((case customPriorities DEFAULT_CONFIG of None \<Rightarrow> [] | Some ps \<Rightarrow> ps) @ [added]) \<rparr>
    \<and> pri_name added = str ''VIP''
    \<and> level added = Finite 10"
proof -
  have h: "str ''VIP'' \<noteq> []"
    "orElse (Some (str '' 42nd'')) (str ''5'') = str '' '' @ [] @ str ''42'' @ str ''nd''"
    "list_all isWhiteSpace (str '' '')"
    "str ''42'' \<noteq> []" "list_all is_decimal_digit (str ''42'')"
    "str ''nd'' = [] \<or> \<not> is_decimal_digit (hd (str ''nd''))"
    "take 2 (str ''42'' @ str ''nd'') \<noteq> str ''0x''" "take 2 (str ''42'' @ str ''nd'') \<noteq> str ''0X''"
    by code_simp+
  have v: "decimal_value (str ''42'') = 42" "([] :: jsstring) \<noteq> str ''-''" by code_simp+
  show ?thesis
    using addPriority_level_of_integer[OF refl h(1,2,3) _ h(4-8), of 1700000000000 DEFAULT_CONFIG] v
    by simp blast
qed

text \<open>
  C10 as it is stated fails: the stored level is not \<open>max(1, min(10, input))\<close> for
  every numeric input. The level is read with \<open>parseInt\<close>: for \<open>7.9\<close> it is 7 and
  not 7.9, for \<open>1e3\<close> it is 1 and not 10. For \<open>.5\<close>, which begins with no digit,
  \<open>parseInt\<close> gives NaN, so do \<open>Math.min\<close> and \<open>Math.max\<close>, and the level
  stored is NaN.
\<close>

theorem addPriority_level_counterexample:
  "(let cfg = DEFAULT_CONFIG\<lparr> customPriorities := None \<rparr>;
        stored = (\<lambda>answer. map level (case customPriorities
           (addPriority (Some (str ''Rush'')) (Some answer) 1700000000000 cfg) of
              None \<Rightarrow> [] | Some ps \<Rightarrow> ps))
    in stored (str ''7.9'') = [Finite 7] \<and> max 1 (min 10 (79 / 10)) \<noteq> (7 :: rat)
       \<and> stored (str ''1e3'') = [Finite 1] \<and> max 1 (min 10 1000) \<noteq> (1 :: rat)
       \<and> stored (str ''.5'') = [NaN])"
  by code_simp

section \<open>Exporting and importing a configuration\<close>

lemma has_prop_map_of: "has_prop k ps = (map_of ps k \<noteq> None)"
  by (induction ps) auto

lemma map_of_replace_prop:
  "map_of (replace_prop k v ps) k' = (if k' = k \<and> has_prop k ps then Some v else map_of ps k')"
  by (induction ps) auto

lemma map_of_insert_index:
  "\<not> has_prop k ps \<Longrightarrow>
     map_of (insert_index n (k, v) ps) k' = (if k' = k then Some v else map_of ps k')"
  by (induction ps) (auto split: option.splits)

lemma map_of_set_prop: "map_of (set_prop k v ps) k' = (if k' = k then Some v else map_of ps k')"
  unfolding set_prop_def
  by (auto simp: map_of_replace_prop map_of_insert_index has_prop_map_of map_add_def
      split: option.splits)

lemma get_prop_set_prop: "get_prop (set_prop k v ps) k' = (if k' = k then v else get_prop ps k')"
  unfolding get_prop_def map_of_set_prop by simp

lemma get_prop_spread_missing:
  assumes "\<not> has_prop k b"
  shows "get_prop (spread a b) k = get_prop a k"
  using assms
proof (induction b rule: rev_induct)
  case Nil
  show ?case by (simp add: spread_Nil)
next
  case (snoc p b)
  obtain k' v where p: "p = (k', v)" by (cases p)
  have "\<not> has_prop k b" "k \<noteq> k'" using snoc.prems unfolding p has_prop_append by simp_all
  then show ?case unfolding p spread_snoc get_prop_set_prop using snoc.IH by simp
qed

lemma get_prop_spread_present:
  assumes "has_prop k b"
  shows "get_prop (spread a b) k = get_prop (rev b) k"
  using assms
proof (induction b rule: rev_induct)
  case Nil
  then show ?case by simp
next
  case (snoc p b)
  obtain k' v where p: "p = (k', v)" by (cases p)
  show ?case
  proof (cases "k = k'")
    case True
    then show ?thesis unfolding p spread_snoc get_prop_set_prop by (simp add: get_prop_def)
  next
    case False
    then have "has_prop k b" using snoc.prems unfolding p has_prop_append by simp
    then show ?thesis
      unfolding p spread_snoc get_prop_set_prop using snoc.IH False by (simp add: get_prop_def)
  qed
qed

lemma get_prop_rev:
  assumes "distinct (map fst ps)"
  shows "get_prop (rev ps) k = get_prop ps k"
proof -
  have "distinct (map fst (rev ps))"
    unfolding rev_map[symmetric] distinct_rev by (rule assms)
  then have "map_of (rev ps) = map_of ps"
    using assms by (subst map_of_inject_set) simp_all
  then show ?thesis unfolding get_prop_def by simp
qed

text \<open>What \<open>JSON.stringify\<close> writes is what \<open>JSON.parse\<close> reads back.\<close>

lemma to_json_defined: "to_json v \<noteq> Undefined"
  by (cases v) (auto split: number.splits)

lemma to_json_idempotent:
  "to_json (to_json v) = to_json v"
  "to_json_elements (to_json_elements xs) = to_json_elements xs"
  "to_json_properties (to_json_properties ps) = to_json_properties ps"
  by (induction v and xs and ps rule: to_json_to_json_elements_to_json_properties.induct)
    (auto simp: to_json_defined split: number.splits)

text \<open>
  A value that JSON represents is written as it is, without its properties that are
  \<open>undefined\<close>.
\<close>

lemma to_json_of_json_value:
  "json_value v \<Longrightarrow> to_json v = defined_part v"
  "json_elements xs \<Longrightarrow> to_json_elements xs = defined_elements xs"
  "json_properties ps \<Longrightarrow> to_json_properties ps = defined_properties ps"
  by (induction v and xs and ps rule: to_json_to_json_elements_to_json_properties.induct)
    (auto split: number.splits)

lemma defined_part_defined:
  "v \<noteq> Undefined \<Longrightarrow> defined_part v \<noteq> Undefined"
  "v \<noteq> Undefined \<Longrightarrow> v \<noteq> Null \<Longrightarrow> defined_part v \<noteq> Null"
  by (cases v; simp)+

lemma has_prop_defined_properties:
  "has_prop k (defined_properties ps) \<Longrightarrow> has_prop k ps"
  by (induction ps) (auto split: if_splits)

lemma distinct_defined_properties:
  "distinct (map fst ps) \<Longrightarrow> distinct (map fst (defined_properties ps))"
proof (induction ps)
  case Nil
  show ?case by simp
next
  case (Cons p ps)
  obtain k v where p: "p = (k, v)" by (cases p)
  have "k \<notin> fst ` set (defined_properties ps)"
  proof
    assume "k \<in> fst ` set (defined_properties ps)"
    then have "has_prop k (defined_properties ps)"
      by (auto simp: has_prop_map_of map_of_eq_None_iff)
    then have "has_prop k ps" by (rule has_prop_defined_properties)
    then show False using Cons.prems unfolding p by (auto simp: has_prop_map_of map_of_eq_None_iff)
  qed
  then show ?case using Cons unfolding p by simp
qed

lemma get_prop_defined_properties:
  assumes "distinct (map fst ps)"
  shows "get_prop (defined_properties ps) k = defined_part (get_prop ps k)"
  using assms
proof (induction ps)
  case Nil
  show ?case by (simp add: get_prop_def)
next
  case (Cons p ps)
  obtain k' v where p: "p = (k', v)" by (cases p)
  have IH: "get_prop (defined_properties ps) k = defined_part (get_prop ps k)"
    using Cons by simp
  have "map_of ps k' = None"
    using Cons.prems unfolding p by (simp add: map_of_eq_None_iff)
  then have absent: "get_prop ps k' = Undefined"
    unfolding get_prop_def by simp
  show ?case
  proof (cases "k = k'")
    case True
    show ?thesis
      unfolding p True using IH[unfolded True] absent by (simp add: get_prop_def)
  next
    case False
    then show ?thesis unfolding p using IH by (simp add: get_prop_def)
  qed
qed

lemma set_prop_present:
  "\<not> has_prop k pre \<Longrightarrow> set_prop k w (pre @ (k, v) # ps) = pre @ (k, w) # ps"
  unfolding set_prop_def by (induction pre) (auto simp: has_prop_append)

lemma spread_defined_properties:
  assumes "distinct (map fst (pre @ ps))"
  shows "spread (pre @ ps) (defined_properties ps) = pre @ map (\<lambda>(k, v). (k, defined_part v)) ps"
  using assms
proof (induction ps arbitrary: pre)
  case Nil
  show ?case by (simp add: spread_Nil)
next
  case (Cons p ps)
  obtain k v where p: "p = (k, v)" by (cases p)
  have absent: "\<not> has_prop k pre"
    using Cons.prems unfolding p by (auto simp: has_prop_map_of map_of_eq_None_iff)
  have d: "distinct (map fst ((pre @ [(k, w)]) @ ps))" for w
    using Cons.prems unfolding p by auto
  show ?case
  proof (cases "v = Undefined")
    case True
    have "spread ((pre @ [(k, v)]) @ ps) (defined_properties ps)
        = (pre @ [(k, v)]) @ map (\<lambda>(k, v). (k, defined_part v)) ps"
      by (rule Cons.IH[OF d])
    then show ?thesis unfolding p using True by simp
  next
    case False
    have "spread (pre @ (k, v) # ps) (defined_properties ((k, v) # ps))
        = spread (set_prop k (defined_part v) (pre @ (k, v) # ps)) (defined_properties ps)"
      using False unfolding spread_def by simp
    also have "\<dots> = spread ((pre @ [(k, defined_part v)]) @ ps) (defined_properties ps)"
      unfolding set_prop_present[OF absent] by simp
    also have "\<dots> = (pre @ [(k, defined_part v)]) @ map (\<lambda>(k, v). (k, defined_part v)) ps"
      by (rule Cons.IH[OF d])
    finally show ?thesis unfolding p by simp
  qed
qed

lemma get_prop_map_defined:
  "get_prop (map (\<lambda>(k, v). (k, defined_part v)) ps) k = defined_part (get_prop ps k)"
  unfolding get_prop_def by (induction ps) auto

lemma exportConfig_loaded:
  "exportConfig backend \<lparr> config = Some c \<rparr> = (Inr (JSON_stringify (Obj c)), \<lparr> config = Some c \<rparr>)"
  unfolding exportConfig_def getConfig_def ensureLoaded_def by simp

lemma updateConfig_loaded:
  "updateConfig backend updates \<lparr> config = Some current \<rparr> =
     (let merged = spread current (own_props updates)
      in if \<not> venueId_ok backend then (Some NetworkError, \<lparr> config = Some current \<rparr>)
         else if get_prop merged (str ''features'') = Undefined \<or> get_prop merged (str ''features'') = Null
           then (Some TypeError, \<lparr> config = Some current \<rparr>)
         else if \<not> put_ok backend then (Some UpdateError, \<lparr> config = Some current \<rparr>)
         else (None, \<lparr> config = Some merged \<rparr>))"
  unfolding updateConfig_def ensureLoaded_def by (simp add: Let_def)

lemma own_props_Obj: "own_props (Obj ps) = ps"
  unfolding own_props_def by simp

lemma has_prop_get_prop: "get_prop ps k \<noteq> Undefined \<Longrightarrow> has_prop k ps"
  unfolding get_prop_def has_prop_map_of by (auto split: option.splits)

text \<open>
  C8, as amended. Export and import are a round trip for every configuration that JSON
  represents: one that holds no NaN and no infinity, and \<open>undefined\<close> only as the
  value of properties. A service that holds such a configuration \<open>cfg\<close> (each name
  once; \<open>features\<close> neither \<open>undefined\<close> nor \<open>null\<close>, as the service keeps
  it) exports a text. Importing that text into the same service gives \<open>true\<close> when
  the backend accepts the update, and then leaves \<open>cfg\<close> without the properties
  inside it that were \<open>undefined\<close>: every field reads as before. When the backend
  refuses, the result is \<open>false\<close> and \<open>cfg\<close> is left as it is. Importing the text
  into a service with any other configuration, when the backend accepts, leaves each
  field of \<open>cfg\<close> that is not \<open>undefined\<close> with the value it has in \<open>cfg\<close>,
  less the properties inside it that were \<open>undefined\<close>.
\<close>

theorem exportConfig_importConfig_round_trip:
  assumes "distinct (map fst cfg)"
    and "json_properties cfg"
    and "get_prop cfg (str ''features'') \<noteq> Undefined" "get_prop cfg (str ''features'') \<noteq> Null"
  shows "\<exists>jsonString.
      exportConfig exporting \<lparr> config = Some cfg \<rparr> = (Inr jsonString, \<lparr> config = Some cfg \<rparr>)
    \<and> importConfig backend jsonString \<lparr> config = Some cfg \<rparr>
        = (venueId_ok backend \<and> put_ok backend,
           \<lparr> config = Some (if venueId_ok backend \<and> put_ok backend
                             then map (\<lambda>(k, v). (k, defined_part v)) cfg else cfg) \<rparr>)
    \<and> (\<forall>k. get_prop (map (\<lambda>(k, v). (k, defined_part v)) cfg) k = defined_part (get_prop cfg k))
    \<and> (venueId_ok backend \<and> put_ok backend \<longrightarrow>
         (\<exists>merged.
            importConfig backend jsonString \<lparr> config = Some current \<rparr>
              = (True, \<lparr> config = Some merged \<rparr>)
          \<and> (\<forall>k. get_prop cfg k \<noteq> Undefined \<longrightarrow>
                 get_prop merged k = defined_part (get_prop cfg k))))"
proof -
  define jsonString where "jsonString = JSON_stringify (Obj cfg)"
  define document where "document = defined_properties cfg"
  have written: "jsonString = Text (Obj document)"
    unfolding jsonString_def document_def JSON_stringify_def
    by (simp add: to_json_of_json_value(3)[OF assms(2)])
  have parse: "JSON_parse jsonString = Some (Obj document)"
    unfolding written JSON_parse_def document_def
    using to_json_idempotent(3)[of cfg]
    by (simp add: to_json_of_json_value(3)[OF assms(2)])
  have dd: "distinct (map fst document)"
    unfolding document_def by (rule distinct_defined_properties[OF assms(1)])
  have fields: "get_prop (spread a document) k = defined_part (get_prop cfg k)"
    if "get_prop cfg k \<noteq> Undefined" for a k
  proof -
    have held: "get_prop document k = defined_part (get_prop cfg k)"
      unfolding document_def by (rule get_prop_defined_properties[OF assms(1)])
    then have "has_prop k document"
      using defined_part_defined(1)[OF that] by (intro has_prop_get_prop) simp
    then show ?thesis
      using get_prop_spread_present[of k document a] get_prop_rev[OF dd] held by simp
  qed
  have feat: "get_prop (spread a document) (str ''features'') \<noteq> Undefined"
    "get_prop (spread a document) (str ''features'') \<noteq> Null" for a
    using fields[OF assms(3)] defined_part_defined[OF assms(3)] assms(4) by simp_all
  have 1: "exportConfig exporting \<lparr> config = Some cfg \<rparr>
      = (Inr jsonString, \<lparr> config = Some cfg \<rparr>)"
    unfolding jsonString_def by (rule exportConfig_loaded)
  have imp: "importConfig backend jsonString \<lparr> config = Some a \<rparr>
      = (venueId_ok backend \<and> put_ok backend,
         \<lparr> config = Some (if venueId_ok backend \<and> put_ok backend
                           then spread a document else a) \<rparr>)" for a
    unfolding importConfig_def parse updateConfig_loaded Let_def
    using feat by (simp add: own_props_Obj)
  have same: "spread cfg document = map (\<lambda>(k, v). (k, defined_part v)) cfg"
    unfolding document_def using spread_defined_properties[of "[]" cfg] assms(1) by simp
  have 2: "importConfig backend jsonString \<lparr> config = Some cfg \<rparr>
        = (venueId_ok backend \<and> put_ok backend,
           \<lparr> config = Some (if venueId_ok backend \<and> put_ok backend
                             then map (\<lambda>(k, v). (k, defined_part v)) cfg else cfg) \<rparr>)"
    unfolding imp same ..
  have 3: "\<forall>k. get_prop (map (\<lambda>(k, v). (k, defined_part v)) cfg) k = defined_part (get_prop cfg k)"
    by (simp add: get_prop_map_defined)
  have 4: "venueId_ok backend \<and> put_ok backend \<longrightarrow>
         (\<exists>merged.
            importConfig backend jsonString \<lparr> config = Some current \<rparr>
              = (True, \<lparr> config = Some merged \<rparr>)
          \<and> (\<forall>k. get_prop cfg k \<noteq> Undefined \<longrightarrow>
                 get_prop merged k = defined_part (get_prop cfg k)))"
    unfolding imp using fields by auto
  show ?thesis using 1 2 3 4 by blast
qed

theorem exportConfig_importConfig_round_trip_witness:
  "\<exists>jsonString.
      exportConfig \<lparr> load = LoadFailed, venueId_ok = True, put_ok = True \<rparr>
        \<lparr> config = Some
           [(str ''companyName'', Str (str ''Acme Events'')),
            (str ''tagline'', Str []),
            (str ''locations'', Arr [Obj [(str ''id'', Num (Finite 7)), (str ''name'', Str (str ''Hall'')),
                                          (str ''capacity'', Undefined), (str ''isActive'', Bool True)]]),
            (str ''defaultEventDuration'', Num (Finite (3 / 2))),
            (str ''features'', Obj [(str ''showAttendees'', Bool True)])] \<rparr>
      = (Inr jsonString,
         \<lparr> config = Some
           [(str ''companyName'', Str (str ''Acme Events'')),
            (str ''tagline'', Str []),
            (str ''locations'', Arr [Obj [(str ''id'', Num (Finite 7)), (str ''name'', Str (str ''Hall'')),
                                          (str ''capacity'', Undefined), (str ''isActive'', Bool True)]]),
            (str ''defaultEventDuration'', Num (Finite (3 / 2))),
            (str ''features'', Obj [(str ''showAttendees'', Bool True)])] \<rparr>)
    \<and> importConfig \<lparr> load = LoadFailed, venueId_ok = True, put_ok = True \<rparr> jsonString
        \<lparr> config = Some
           [(str ''companyName'', Str (str ''Acme Events'')),
            (str ''tagline'', Str []),
            (str ''locations'', Arr [Obj [(str ''id'', Num (Finite 7)), (str ''name'', Str (str ''Hall'')),
                                          (str ''capacity'', Undefined), (str ''isActive'', Bool True)]]),
            (str ''defaultEventDuration'', Num (Finite (3 / 2))),
            (str ''features'', Obj [(str ''showAttendees'', Bool True)])] \<rparr>
      = (True,
         \<lparr> config = Some
           [(str ''companyName'', Str (str ''Acme Events'')),
            (str ''tagline'', Str []),
            (str ''locations'', Arr [Obj [(str ''id'', Num (Finite 7)), (str ''name'', Str (str ''Hall'')),
                                          (str ''isActive'', Bool True)]]),
            (str ''defaultEventDuration'', Num (Finite (3 / 2))),
            (str ''features'', Obj [(str ''showAttendees'', Bool True)])] \<rparr>)"
proof -
  define cfg where "cfg =
           [(str ''companyName'', Str (str ''Acme Events'')),
            (str ''tagline'', Str []),
            (str ''locations'', Arr [Obj [(str ''id'', Num (Finite 7)), (str ''name'', Str (str ''Hall'')),
                                          (str ''capacity'', Undefined), (str ''isActive'', Bool True)]]),
            (str ''defaultEventDuration'', Num (Finite (3 / 2))),
            (str ''features'', Obj [(str ''showAttendees'', Bool True)])]"
  have h: "distinct (map fst cfg)" "json_properties cfg"
    "get_prop cfg (str ''features'') \<noteq> Undefined" "get_prop cfg (str ''features'') \<noteq> Null"
    unfolding cfg_def by code_simp+
  have after: "map (\<lambda>(k, v). (k, defined_part v)) cfg =
           [(str ''companyName'', Str (str ''Acme Events'')),
            (str ''tagline'', Str []),
            (str ''locations'', Arr [Obj [(str ''id'', Num (Finite 7)), (str ''name'', Str (str ''Hall'')),
                                          (str ''isActive'', Bool True)]]),
            (str ''defaultEventDuration'', Num (Finite (3 / 2))),
            (str ''features'', Obj [(str ''showAttendees'', Bool True)])]"
    unfolding cfg_def by simp
  show ?thesis
    using exportConfig_importConfig_round_trip[OF h,
        of "\<lparr> load = LoadFailed, venueId_ok = True, put_ok = True \<rparr>"
           "\<lparr> load = LoadFailed, venueId_ok = True, put_ok = True \<rparr>" "[]"]
    unfolding after unfolding cfg_def by simp blast
qed

text \<open>
  C8 as it is stated fails for a configuration that holds a number JSON has no
  notation for. The settings form stores \<open>parseFloat\<close> of the duration field, NaN
  when the field is empty; the export writes \<open>null\<close> for it, and after the import
  the default duration is \<open>null\<close>.
\<close>

theorem exportConfig_importConfig_counterexample:
  "(let backend = \<lparr> load = LoadFailed, venueId_ok = True, put_ok = True \<rparr>;
        cfg = encode_config (DEFAULT_CONFIG\<lparr> defaultEventDuration := NaN \<rparr>)
    in case exportConfig backend \<lparr> config = Some cfg \<rparr> of
         (Inr jsonString, service) \<Rightarrow>
           (case importConfig backend jsonString service of
              (result, service') \<Rightarrow>
                 result
               \<and> get_prop cfg (str ''defaultEventDuration'') = Num NaN
               \<and> map_option (\<lambda>imported. get_prop imported (str ''defaultEventDuration''))
                    (config service') = Some Null)
       | _ \<Rightarrow> False)"
  by code_simp

text \<open>
  C9. An incomplete document is completed from the system defaults, and a document
  that has not the shape of a configuration is refused, the configuration left as it
  is. \<open>importConfig\<close> of the service does neither. The JSON text \<open>"hi"\<close>, a string,
  is accepted: its two characters become the properties \<open>0\<close> and \<open>1\<close> of the
  configuration. From the document \<open>{"venueName": "Hall"}\<close>, the company name
  stays what it was, Acme Events, where the default is Event Planner.
  \<open>importConfig\<close> of the local-storage service checks \<open>typeof\<close> and merges over
  \<open>DEFAULT_CONFIG\<close>: it refuses the first text and completes the second from the
  defaults. A text that does not parse is refused by both.
\<close>

theorem importConfig_no_defaults_no_shape:
  "(let backend = \<lparr> load = LoadFailed, venueId_ok = True, put_ok = True \<rparr>;
        current = encode_config (DEFAULT_CONFIG\<lparr> companyName := str ''Acme Events'' \<rparr>);
        service = \<lparr> config = Some current \<rparr>;
        document = Text (Str (str ''hi''));
        incomplete = Text (Obj [(str ''venueName'', Str (str ''Hall''))])
    in importConfig backend document service
         = (True, \<lparr> config = Some ([(str ''0'', Str (str ''h'')), (str ''1'', Str (str ''i''))] @ current) \<rparr>)
     \<and> importConfig_localStorage document current = (False, current)
     \<and> (case importConfig backend incomplete service of
          (result, service') \<Rightarrow>
            result
          \<and> map_option (\<lambda>c. (get_prop c (str ''venueName''), get_prop c (str ''companyName'')))
               (config service') = Some (Str (str ''Hall''), Str (str ''Acme Events'')))
     \<and> (case importConfig_localStorage incomplete current of
          (result, c) \<Rightarrow>
            result
          \<and> (get_prop c (str ''venueName''), get_prop c (str ''companyName''))
               = (Str (str ''Hall''), Str (str ''Event Planner'')))
     \<and> importConfig backend Malformed service = (False, service)
     \<and> importConfig_localStorage Malformed current = (False, current))"
  by code_simp

end
